theory Spec2Isabelle
  imports Main "HOL-Library.Multiset" "HOL-Library.Sublist" "HOL-Library.Monad_Syntax"
begin

section \<open>The correction engine of main.cpp\<close>

text \<open>
  A shallow embedding of \<^verbatim>\<open>src/main.cpp\<close>: the string utilities, the \<^verbatim>\<open>Command\<close>
  value, the 44 rules, the Levenshtein table, the fuzzy matcher and the rule manager.

  Conventions.
  \<^item> \<^verbatim>\<open>std::string\<close> is \<open>string\<close> (a list of bytes), \<^verbatim>\<open>std::vector\<close> is a list.
  \<^item> A computation that would read out of range (undefined behaviour of
    \<^verbatim>\<open>operator[]\<close> and \<^verbatim>\<open>back()\<close>) or throw \<^verbatim>\<open>std::out_of_range\<close> (\<^verbatim>\<open>substr\<close>)
    has the value \<open>None\<close>; every function that can reach such an access returns an option.
  \<^item> \<^verbatim>\<open>std::string::npos\<close> is \<open>None\<close> in the result of \<open>string_find\<close>.
  \<^item> C++ \<^verbatim>\<open>int\<close> is \<open>int\<close>: the only \<^verbatim>\<open>int\<close> values computed are priorities (1000) and
    cells of the Levenshtein table, which lie between 0 and the longer string's length.
  \<^item> What the operating system and the C++ library decide is a field of the record
    \<open>env\<close>: the executable names the command cache holds, the answer of \<^verbatim>\<open>stat\<close>, and
    the two instances of \<^verbatim>\<open>std::sort\<close>, of which the language standard promises only
    \<open>std_sort_post\<close>; \<open>libstdcxx_env\<close> is the system with the sort of GNU libstdc++.
\<close>

subsection \<open>namespace utils\<close>

definition tolower :: "char \<Rightarrow> char" where
  \<comment> \<open>\<^verbatim>\<open>::tolower\<close> in the "C" locale (the program never calls \<^verbatim>\<open>setlocale\<close>).\<close>
  "tolower c =
     (case map_of (zip ''ABCDEFGHIJKLMNOPQRSTUVWXYZ'' ''abcdefghijklmnopqrstuvwxyz'') c of
        Some l \<Rightarrow> l
      | None \<Rightarrow> c)"

definition to_lower :: "string \<Rightarrow> string" where
  "to_lower s = map tolower s"

fun string_find :: "string \<Rightarrow> string \<Rightarrow> nat option" where
  \<comment> \<open>\<^verbatim>\<open>str.find(substr)\<close>: the first position where \<open>substr\<close> occurs; \<open>None\<close> is \<^verbatim>\<open>npos\<close>.\<close>
  "string_find [] sub = (if sub = [] then Some 0 else None)"
| "string_find (c # cs) sub =
     (if prefix sub (c # cs) then Some 0 else map_option Suc (string_find cs sub))"

definition contains :: "string \<Rightarrow> string \<Rightarrow> bool" where
  "contains str substr \<longleftrightarrow> string_find str substr \<noteq> None"

definition starts_with :: "string \<Rightarrow> string \<Rightarrow> bool" where
  "starts_with str pre \<longleftrightarrow> string_find str pre = Some 0"

definition ends_with :: "string \<Rightarrow> string \<Rightarrow> bool" where
  \<comment> \<open>\<^verbatim>\<open>str.compare(pos, len, suffix) == 0\<close> compares the \<open>len\<close> characters from \<open>pos\<close> with the suffix.\<close>
  "ends_with str suf \<longleftrightarrow>
     length str \<ge> length suf \<and>
     take (length suf) (drop (length str - length suf) str) = suf"

fun getline :: "string \<Rightarrow> char \<Rightarrow> (string \<times> string) option" where
  \<comment> \<open>\<^verbatim>\<open>std::getline(iss, part, delim)\<close> on the unread rest of the stream: the characters
      up to the delimiter, and the rest after the delimiter. It fails (\<open>None\<close>) when the
      stream is exhausted and nothing could be extracted.\<close>
  "getline [] delim = None"
| "getline (c # cs) delim =
     Some (takeWhile (\<lambda>x. x \<noteq> delim) (c # cs), drop 1 (dropWhile (\<lambda>x. x \<noteq> delim) (c # cs)))"

function split_loop :: "string \<Rightarrow> char \<Rightarrow> string list \<Rightarrow> string list" where
  \<comment> \<open>The \<^verbatim>\<open>while (std::getline(...))\<close> loop of \<^verbatim>\<open>utils::split\<close>.\<close>
  "split_loop iss delim parts =
     (case getline iss delim of
        None \<Rightarrow> parts
      | Some (part, rest) \<Rightarrow>
          split_loop rest delim (if part \<noteq> [] then parts @ [part] else parts))"
  by pat_completeness auto
termination
proof (relation "measure (\<lambda>(iss, delim, parts). length iss)")
  show "wf (measure (\<lambda>(iss, delim, parts). length iss))"
    by simp
next
  fix iss :: string and delim :: char and parts :: "string list" and x2 part rest
  assume "getline iss delim = Some x2" and "(part, rest) = x2"
  then have "rest = drop 1 (dropWhile (\<lambda>x. x \<noteq> delim) iss)" and "iss \<noteq> []"
    by (cases iss; auto)+
  then have "length rest < length iss"
    using length_dropWhile_le [of "\<lambda>x. x \<noteq> delim" iss]
    by (cases "dropWhile (\<lambda>x. x \<noteq> delim) iss") (auto simp: neq_Nil_conv)
  then show "((rest, delim, if part \<noteq> [] then parts @ [part] else parts), iss, delim, parts)
      \<in> measure (\<lambda>(iss, delim, parts). length iss)"
    by simp
qed

declare split_loop.simps [simp del]

definition split :: "string \<Rightarrow> char \<Rightarrow> string list" where
  "split str delim = split_loop str delim []"

subsection \<open>struct Command\<close>

record Command =
  script :: string
  "output" :: string
  script_parts :: "string list"

definition new_Command :: "string \<Rightarrow> string \<Rightarrow> Command" where
  \<comment> \<open>The constructor \<^verbatim>\<open>Command(s, o)\<close>; \<^verbatim>\<open>utils::split\<close> is called with its default
      delimiter, the space character.\<close>
  "new_Command s out = \<lparr>script = s, output = out, script_parts = split s (CHR '' '')\<rparr>"

subsection \<open>Checked accesses\<close>

definition vec_at :: "'a list \<Rightarrow> nat \<Rightarrow> 'a option" where
  \<comment> \<open>\<^verbatim>\<open>std::vector::operator[]\<close>: undefined behaviour out of range.\<close>
  "vec_at v i = (if i < length v then Some (v ! i) else None)"

definition vec_back :: "'a list \<Rightarrow> 'a option" where
  \<comment> \<open>\<^verbatim>\<open>std::vector::back()\<close>: undefined behaviour on an empty vector.\<close>
  "vec_back v = (if v = [] then None else Some (last v))"

definition char_at :: "string \<Rightarrow> nat \<Rightarrow> char option" where
  \<comment> \<open>\<^verbatim>\<open>operator[]\<close> of a const \<^verbatim>\<open>std::string\<close>: the character at \<open>pos\<close>, the
      terminating NUL at \<open>pos = size()\<close>, undefined behaviour beyond.\<close>
  "char_at s pos =
     (if pos < length s then Some (s ! pos)
      else if pos = length s then Some (CHR 0x00)
      else None)"

definition substr :: "string \<Rightarrow> nat \<Rightarrow> string option" where
  \<comment> \<open>\<^verbatim>\<open>s.substr(pos)\<close>: throws \<^verbatim>\<open>std::out_of_range\<close> when \<open>pos > size()\<close>.\<close>
  "substr s pos = (if pos \<le> length s then Some (drop pos s) else None)"

definition substr_n :: "string \<Rightarrow> nat \<Rightarrow> nat \<Rightarrow> string option" where
  \<comment> \<open>\<^verbatim>\<open>s.substr(pos, n)\<close>.\<close>
  "substr_n s pos n = (if pos \<le> length s then Some (take n (drop pos s)) else None)"

definition string_replace :: "string \<Rightarrow> nat \<Rightarrow> nat \<Rightarrow> string \<Rightarrow> string option" where
  \<comment> \<open>\<^verbatim>\<open>s.replace(pos, n, r)\<close>: throws \<^verbatim>\<open>std::out_of_range\<close> when \<open>pos > size()\<close>.\<close>
  "string_replace s pos n r =
     (if pos \<le> length s then Some (take pos s @ r @ drop (pos + n) s) else None)"

definition string_rfind :: "string \<Rightarrow> char \<Rightarrow> nat option" where
  \<comment> \<open>\<^verbatim>\<open>s.rfind(c)\<close>: the last position of the character; \<open>None\<close> is \<^verbatim>\<open>npos\<close>.\<close>
  "string_rfind s c =
     (case string_find (rev s) [c] of None \<Rightarrow> None | Some k \<Rightarrow> Some (length s - 1 - k))"

definition sc_and :: "bool option \<Rightarrow> bool option \<Rightarrow> bool option" where
  \<comment> \<open>\<^verbatim>\<open>a && b\<close>: the right operand is evaluated only when the left one is true.\<close>
  "sc_and a b = (case a of None \<Rightarrow> None | Some False \<Rightarrow> Some False | Some True \<Rightarrow> b)"

definition append_parts :: "string \<Rightarrow> string list \<Rightarrow> nat \<Rightarrow> string" where
  \<comment> \<open>\<^verbatim>\<open>for (i = start; i < parts.size(); i++) fixed += " " + parts[i];\<close>\<close>
  "append_parts fixed parts start = foldl (\<lambda>acc p. acc @ '' '' @ p) fixed (drop start parts)"

subsection \<open>class Rule and the macro RULE\_CLASS\<close>

record rule =
  get_name :: string
  get_priority :: int
  match :: "Command \<Rightarrow> bool option"
  get_new_command :: "Command \<Rightarrow> string list option"

definition RULE_CLASS ::
  "string \<Rightarrow> (Command \<Rightarrow> bool option) \<Rightarrow> (Command \<Rightarrow> string list option) \<Rightarrow> rule" where
  \<comment> \<open>A class made by the macro: its name, the inherited priority 1000, its two methods.\<close>
  "RULE_CLASS nm m g = \<lparr>get_name = nm, get_priority = 1000, match = m, get_new_command = g\<rparr>"

subsection \<open>Regular expressions of the two capturing rules\<close>

fun regex_search :: "(string \<Rightarrow> string option) \<Rightarrow> string \<Rightarrow> string option" where
  \<comment> \<open>\<^verbatim>\<open>std::regex_search\<close>: the match at the leftmost start position; the argument
      matches the pattern at the start of a string and gives capture group 1. (A match
      of a pattern with one group has \<^verbatim>\<open>match.size() == 2\<close>.)\<close>
  "regex_search here [] = here []"
| "regex_search here (c # cs) =
     (case here (c # cs) of Some g \<Rightarrow> Some g | None \<Rightarrow> regex_search here cs)"

definition is_branch_char :: "char \<Rightarrow> bool" where
  \<comment> \<open>The class \<^verbatim>\<open>[a-zA-Z0-9_-]\<close>.\<close>
  "is_branch_char c \<longleftrightarrow>
     c \<in> set ''abcdefghijklmnopqrstuvwxyzABCDEFGHIJKLMNOPQRSTUVWXYZ0123456789_-''"

definition is_lower_char :: "char \<Rightarrow> bool" where
  \<comment> \<open>The class \<^verbatim>\<open>[a-z]\<close>.\<close>
  "is_lower_char c \<longleftrightarrow> c \<in> set ''abcdefghijklmnopqrstuvwxyz''"

definition isspace :: "char \<Rightarrow> bool" where
  \<comment> \<open>Whitespace of the "C" locale (also the class \<^verbatim>\<open>\s\<close>): space, tab, line feed,
      vertical tab, form feed, carriage return.\<close>
  "isspace c \<longleftrightarrow> c \<in> set [CHR '' '', CHR 0x09, CHR 0x0A, CHR 0x0B, CHR 0x0C, CHR 0x0D]"

definition branch_regex :: "string \<Rightarrow> string option" where
  \<comment> \<open>\<^verbatim>\<open>git push --set-upstream origin ([a-zA-Z0-9_-]+)\<close> at the start of a string: the
      literal text, then the longest non-empty run of class characters.\<close>
  "branch_regex s =
     (if prefix ''git push --set-upstream origin '' s
         \<and> takeWhile is_branch_char (drop 31 s) \<noteq> []
      then Some (takeWhile is_branch_char (drop 31 s))
      else None)"

definition did_you_mean :: "string \<Rightarrow> string option" where
  \<comment> \<open>\<^verbatim>\<open>The most similar command is\s+([a-z]+)\<close> at the start of a string: the literal
      text, a non-empty run of whitespace (all of it: a lower-case letter is no
      whitespace), then the longest non-empty run of lower-case letters.\<close>
  "did_you_mean s =
     (if prefix ''The most similar command is'' s
         \<and> takeWhile isspace (drop 27 s) \<noteq> []
         \<and> takeWhile is_lower_char (dropWhile isspace (drop 27 s)) \<noteq> []
      then Some (takeWhile is_lower_char (dropWhile isspace (drop 27 s)))
      else None)"

subsection \<open>The rules without the fuzzy matcher\<close>

definition SudoRule_match :: "Command \<Rightarrow> bool option" where
  "SudoRule_match cmd =
     (let lower = to_lower (output cmd) in
      Some (contains lower ''permission denied'' \<or>
            contains lower ''Permission denied'' \<or>
            contains lower ''EACCES'' \<or>
            contains (output cmd) ''unless you are root''))"

definition SudoRule_get_new_command :: "Command \<Rightarrow> string list option" where
  "SudoRule_get_new_command cmd = Some [''sudo '' @ script cmd]"

definition GitPushRule_match :: "Command \<Rightarrow> bool option" where
  "GitPushRule_match cmd =
     Some (starts_with (script cmd) ''git push'' \<and>
           contains (output cmd) ''has no upstream branch'')"

definition GitPushRule_get_new_command :: "Command \<Rightarrow> string list option" where
  "GitPushRule_get_new_command cmd =
     (case regex_search branch_regex (output cmd) of
        Some g \<Rightarrow> Some [''git push --set-upstream origin '' @ g]
      | None \<Rightarrow> Some [''git push --set-upstream origin master''])"

definition NoCommandRule_match :: "Command \<Rightarrow> bool option" where
  "NoCommandRule_match cmd =
     Some (contains (output cmd) ''command not found'' \<or>
           contains (output cmd) ''No command'')"

definition NoCommandRule_typos :: "string \<rightharpoonup> string" where
  "NoCommandRule_typos = map_of
     [(''puthon'', ''python''), (''pytohn'', ''python''), (''gti'', ''git''),
      (''vom'', ''vim''), (''claer'', ''clear''), (''cd..'', ''cd ..''),
      (''sl'', ''ls''), (''grpe'', ''grep''), (''pyton'', ''python'')]"

definition NoCommandRule_get_new_command :: "Command \<Rightarrow> string list option" where
  "NoCommandRule_get_new_command cmd =
     (if script_parts cmd \<noteq> [] then
        do {
          p0 \<leftarrow> vec_at (script_parts cmd) 0;
          (case NoCommandRule_typos p0 of
             Some fixed \<Rightarrow> Some [append_parts fixed (script_parts cmd) 1]
           | None \<Rightarrow> Some [script cmd])
        }
      else Some [script cmd])"

definition GitNotCommandRule_match :: "Command \<Rightarrow> bool option" where
  "GitNotCommandRule_match cmd =
     Some (starts_with (script cmd) ''git'' \<and>
           contains (output cmd) ''is not a git command'')"

definition GitNotCommandRule_get_new_command :: "Command \<Rightarrow> string list option" where
  "GitNotCommandRule_get_new_command cmd =
     (case regex_search did_you_mean (output cmd) of
        Some g \<Rightarrow> Some [append_parts (''git '' @ g) (script_parts cmd) 2]
      | None \<Rightarrow> Some [script cmd])"

definition GitNotRepositoryRule_match :: "Command \<Rightarrow> bool option" where
  \<comment> \<open>Defined in the source, never registered by the rule manager.\<close>
  "GitNotRepositoryRule_match cmd =
     Some (starts_with (script cmd) ''git'' \<and>
           contains (output cmd)
             ''fatal: not a git repository (or any of the parent directories):'')"

definition GitNotRepositoryRule_get_new_command :: "Command \<Rightarrow> string list option" where
  "GitNotRepositoryRule_get_new_command cmd = Some [''git create'']"

definition CdMkdirRule_match :: "Command \<Rightarrow> bool option" where
  "CdMkdirRule_match cmd =
     Some (starts_with (script cmd) ''cd '' \<and>
           (contains (output cmd) ''No such file or directory'' \<or>
            contains (output cmd) ''cannot access''))"

definition CdMkdirRule_get_new_command :: "Command \<Rightarrow> string list option" where
  "CdMkdirRule_get_new_command cmd =
     (if length (script_parts cmd) \<ge> 2 then
        do {
          p1 \<leftarrow> vec_at (script_parts cmd) 1;
          Some [''mkdir -p '' @ p1 @ '' && cd '' @ p1]
        }
      else Some [script cmd])"

definition CdParentRule_match :: "Command \<Rightarrow> bool option" where
  "CdParentRule_match cmd = Some (script cmd = ''cd..'')"

definition CdParentRule_get_new_command :: "Command \<Rightarrow> string list option" where
  "CdParentRule_get_new_command cmd = Some [''cd ..'']"

definition CdCsRule_match :: "Command \<Rightarrow> bool option" where
  "CdCsRule_match cmd = Some (starts_with (script cmd) ''cs '')"

definition CdCsRule_get_new_command :: "Command \<Rightarrow> string list option" where
  "CdCsRule_get_new_command cmd = do { r \<leftarrow> substr (script cmd) 3; Some [''cd '' @ r] }"

definition CatDirRule_match :: "Command \<Rightarrow> bool option" where
  "CatDirRule_match cmd =
     Some (starts_with (script cmd) ''cat '' \<and>
           (contains (output cmd) ''Is a directory'' \<or>
            contains (output cmd) ''is a directory''))"

definition CatDirRule_get_new_command :: "Command \<Rightarrow> string list option" where
  "CatDirRule_get_new_command cmd = do { r \<leftarrow> substr (script cmd) 4; Some [''ls '' @ r] }"

definition ChmodXRule_match :: "Command \<Rightarrow> bool option" where
  "ChmodXRule_match cmd =
     sc_and (Some (contains (output cmd) ''Permission denied''))
    (sc_and (Some (length (script_parts cmd) \<ge> 1))
    (sc_and (do { p0 \<leftarrow> vec_at (script_parts cmd) 0; c \<leftarrow> char_at p0 0; Some (c = CHR ''.'') })
            (do { p0 \<leftarrow> vec_at (script_parts cmd) 0; c \<leftarrow> char_at p0 1; Some (c = CHR ''/'') })))"

definition ChmodXRule_get_new_command :: "Command \<Rightarrow> string list option" where
  "ChmodXRule_get_new_command cmd =
     do { p0 \<leftarrow> vec_at (script_parts cmd) 0; Some [''chmod +x '' @ p0 @ '' && '' @ script cmd] }"

definition CpOmittingDirectoryRule_match :: "Command \<Rightarrow> bool option" where
  "CpOmittingDirectoryRule_match cmd =
     Some (starts_with (script cmd) ''cp '' \<and> contains (output cmd) ''omitting directory'')"

definition CpOmittingDirectoryRule_get_new_command :: "Command \<Rightarrow> string list option" where
  "CpOmittingDirectoryRule_get_new_command cmd =
     do { r \<leftarrow> substr (script cmd) 3; Some [''cp -r '' @ r] }"

definition DryRule_match :: "Command \<Rightarrow> bool option" where
  "DryRule_match cmd =
     (if length (script_parts cmd) < 2 then Some False
      else do {
        p0 \<leftarrow> vec_at (script_parts cmd) 0;
        p1 \<leftarrow> vec_at (script_parts cmd) 1;
        Some (p0 = p1)
      })"

definition DryRule_get_new_command :: "Command \<Rightarrow> string list option" where
  "DryRule_get_new_command cmd =
     do { p0 \<leftarrow> vec_at (script_parts cmd) 0; Some [append_parts p0 (script_parts cmd) 2] }"

definition GitAddRule_match :: "Command \<Rightarrow> bool option" where
  "GitAddRule_match cmd =
     Some (starts_with (script cmd) ''git add'' \<and>
           contains (output cmd) ''did not match any file'')"

definition GitAddRule_get_new_command :: "Command \<Rightarrow> string list option" where
  "GitAddRule_get_new_command cmd = Some [''git add -A'']"

definition GitAddForceRule_match :: "Command \<Rightarrow> bool option" where
  "GitAddForceRule_match cmd =
     Some (starts_with (script cmd) ''git add'' \<and>
           (contains (output cmd) ''.gitignore'' \<or> contains (output cmd) ''ignored''))"

definition GitAddForceRule_get_new_command :: "Command \<Rightarrow> string list option" where
  "GitAddForceRule_get_new_command cmd = Some [script cmd @ '' --force'']"

definition GitBranchDeleteRule_match :: "Command \<Rightarrow> bool option" where
  "GitBranchDeleteRule_match cmd =
     Some (contains (script cmd) ''git branch -d'' \<and>
           contains (output cmd) ''not fully merged'')"

definition GitBranchDeleteRule_get_new_command :: "Command \<Rightarrow> string list option" where
  \<comment> \<open>With \<^verbatim>\<open>find("-d") == npos\<close>, \<^verbatim>\<open>substr(0, npos)\<close> is the whole script and
      \<^verbatim>\<open>npos + 2\<close> wraps around to 1.\<close>
  "GitBranchDeleteRule_get_new_command cmd =
     (case string_find (script cmd) ''-d'' of
        Some p \<Rightarrow>
          do {
            a \<leftarrow> substr_n (script cmd) 0 p;
            b \<leftarrow> substr (script cmd) (p + 2);
            Some [a @ ''-D'' @ b]
          }
      | None \<Rightarrow>
          do {
            a \<leftarrow> substr_n (script cmd) 0 (length (script cmd));
            b \<leftarrow> substr (script cmd) 1;
            Some [a @ ''-D'' @ b]
          })"

definition GitCommitAddRule_match :: "Command \<Rightarrow> bool option" where
  "GitCommitAddRule_match cmd =
     Some (starts_with (script cmd) ''git commit'' \<and>
           contains (output cmd) ''no changes added to commit'')"

definition GitCommitAddRule_get_new_command :: "Command \<Rightarrow> string list option" where
  "GitCommitAddRule_get_new_command cmd =
     do {
       base \<leftarrow> substr_n (script cmd) 0 10;
       rest \<leftarrow> (if length (script cmd) > 10 then substr (script cmd) 10 else Some []);
       Some [''git commit -a'' @ rest, ''git commit -p'' @ rest]
     }"

definition GitCommitAmendRule_match :: "Command \<Rightarrow> bool option" where
  "GitCommitAmendRule_match cmd =
     Some (starts_with (script cmd) ''git commit'' \<and> \<not> contains (script cmd) ''--amend'')"

definition GitCommitAmendRule_get_new_command :: "Command \<Rightarrow> string list option" where
  "GitCommitAmendRule_get_new_command cmd = Some [script cmd @ '' --amend'']"

definition GitPullRule_match :: "Command \<Rightarrow> bool option" where
  "GitPullRule_match cmd =
     Some (starts_with (script cmd) ''git pull'' \<and>
           contains (output cmd) ''no tracking information'')"

definition GitPullRule_get_new_command :: "Command \<Rightarrow> string list option" where
  "GitPullRule_get_new_command cmd =
     Some [''git branch --set-upstream-to=origin/master master && git pull'']"

definition GitTwoDashesRule_match :: "Command \<Rightarrow> bool option" where
  "GitTwoDashesRule_match cmd =
     Some (starts_with (script cmd) ''git '' \<and>
           (contains (script cmd) '' -amend'' \<or>
            contains (script cmd) '' -continue'' \<or>
            contains (script cmd) '' -abort''))"

definition GitTwoDashesRule_get_new_command :: "Command \<Rightarrow> string list option" where
  "GitTwoDashesRule_get_new_command cmd =
     (case string_find (script cmd) '' -amend'' of
        Some pos \<Rightarrow> map_option (\<lambda>fixed. [fixed]) (string_replace (script cmd) pos 7 '' --amend'')
      | None \<Rightarrow>
     (case string_find (script cmd) '' -continue'' of
        Some pos \<Rightarrow> map_option (\<lambda>fixed. [fixed]) (string_replace (script cmd) pos 10 '' --continue'')
      | None \<Rightarrow>
     (case string_find (script cmd) '' -abort'' of
        Some pos \<Rightarrow> map_option (\<lambda>fixed. [fixed]) (string_replace (script cmd) pos 7 '' --abort'')
      | None \<Rightarrow> Some [script cmd])))"

definition GrepRecursiveRule_match :: "Command \<Rightarrow> bool option" where
  "GrepRecursiveRule_match cmd =
     Some (starts_with (script cmd) ''grep '' \<and> contains (output cmd) ''Is a directory'')"

definition GrepRecursiveRule_get_new_command :: "Command \<Rightarrow> string list option" where
  "GrepRecursiveRule_get_new_command cmd =
     do { r \<leftarrow> substr (script cmd) 5; Some [''grep -r '' @ r] }"

definition LsAllRule_match :: "Command \<Rightarrow> bool option" where
  "LsAllRule_match cmd = Some (script cmd = ''ls'' \<and> output cmd = [])"

definition LsAllRule_get_new_command :: "Command \<Rightarrow> string list option" where
  "LsAllRule_get_new_command cmd = Some [''ls -A'']"

definition LsLahRule_match :: "Command \<Rightarrow> bool option" where
  "LsLahRule_match cmd = Some (script cmd = ''ls'' \<and> output cmd \<noteq> [])"

definition LsLahRule_get_new_command :: "Command \<Rightarrow> string list option" where
  "LsLahRule_get_new_command cmd = Some [''ls -lah'']"

definition MkdirPRule_match :: "Command \<Rightarrow> bool option" where
  "MkdirPRule_match cmd =
     Some (starts_with (script cmd) ''mkdir '' \<and>
           contains (output cmd) ''No such file or directory'')"

definition MkdirPRule_get_new_command :: "Command \<Rightarrow> string list option" where
  "MkdirPRule_get_new_command cmd =
     do { r \<leftarrow> substr (script cmd) 6; Some [''mkdir -p '' @ r] }"

definition RmDirRule_match :: "Command \<Rightarrow> bool option" where
  "RmDirRule_match cmd =
     Some (starts_with (script cmd) ''rm '' \<and>
           (contains (output cmd) ''is a directory'' \<or>
            contains (output cmd) ''Is a directory''))"

definition RmDirRule_get_new_command :: "Command \<Rightarrow> string list option" where
  "RmDirRule_get_new_command cmd = do { r \<leftarrow> substr (script cmd) 3; Some [''rm -rf '' @ r] }"

definition SlLsRule_match :: "Command \<Rightarrow> bool option" where
  "SlLsRule_match cmd = Some (script cmd = ''sl'' \<or> starts_with (script cmd) ''sl '')"

definition SlLsRule_get_new_command :: "Command \<Rightarrow> string list option" where
  "SlLsRule_get_new_command cmd = do { r \<leftarrow> substr (script cmd) 2; Some [''ls'' @ r] }"

definition PythonCommandRule_match :: "Command \<Rightarrow> bool option" where
  "PythonCommandRule_match cmd =
     sc_and (Some (contains (output cmd) ''Permission denied''))
    (sc_and (Some (script_parts cmd \<noteq> []))
            (do { p0 \<leftarrow> vec_at (script_parts cmd) 0; Some (ends_with p0 ''.py'') }))"

definition PythonCommandRule_get_new_command :: "Command \<Rightarrow> string list option" where
  "PythonCommandRule_get_new_command cmd = Some [''python '' @ script cmd]"

definition PythonExecuteRule_match :: "Command \<Rightarrow> bool option" where
  "PythonExecuteRule_match cmd =
     Some (starts_with (script cmd) ''python '' \<and>
           contains (output cmd) ''No such file'' \<and>
           \<not> ends_with (script cmd) ''.py'')"

definition PythonExecuteRule_get_new_command :: "Command \<Rightarrow> string list option" where
  "PythonExecuteRule_get_new_command cmd = Some [script cmd @ ''.py'']"

definition JavaRule_match :: "Command \<Rightarrow> bool option" where
  "JavaRule_match cmd =
     sc_and (Some (starts_with (script cmd) ''java ''))
            (do { b \<leftarrow> vec_back (script_parts cmd); Some (ends_with b ''.java'') })"

definition JavaRule_get_new_command :: "Command \<Rightarrow> string list option" where
  \<comment> \<open>\<^verbatim>\<open>fixed.length() - 5\<close> is unsigned: below 5 it wraps around to a count beyond
      the end, and \<^verbatim>\<open>substr(0, n)\<close> is the whole string.\<close>
  "JavaRule_get_new_command cmd =
     (if length (script cmd) \<ge> 5
      then map_option (\<lambda>fixed. [fixed]) (substr_n (script cmd) 0 (length (script cmd) - 5))
      else map_option (\<lambda>fixed. [fixed]) (substr_n (script cmd) 0 (length (script cmd))))"

definition JavacRule_match :: "Command \<Rightarrow> bool option" where
  "JavacRule_match cmd =
     Some (starts_with (script cmd) ''javac '' \<and>
           contains (output cmd) ''No such file'' \<and>
           \<not> ends_with (script cmd) ''.java'')"

definition JavacRule_get_new_command :: "Command \<Rightarrow> string list option" where
  "JavacRule_get_new_command cmd = Some [script cmd @ ''.java'']"

definition GoRunRule_match :: "Command \<Rightarrow> bool option" where
  "GoRunRule_match cmd =
     Some (starts_with (script cmd) ''go run '' \<and> \<not> ends_with (script cmd) ''.go'')"

definition GoRunRule_get_new_command :: "Command \<Rightarrow> string list option" where
  "GoRunRule_get_new_command cmd = Some [script cmd @ ''.go'']"

definition CargoRule_match :: "Command \<Rightarrow> bool option" where
  "CargoRule_match cmd = Some (script cmd = ''cargo'')"

definition CargoRule_get_new_command :: "Command \<Rightarrow> string list option" where
  "CargoRule_get_new_command cmd = Some [''cargo build'']"

definition subcommand_fix ::
  "string \<Rightarrow> (string \<rightharpoonup> string) \<Rightarrow> Command \<Rightarrow> string list option" where
  \<comment> \<open>The body shared by the docker, npm and pip rules:
      \<^verbatim>\<open>if (parts.size() > 1 && typos.count(parts[1])) return {tool + typos[parts[1]]};
      return {cmd.script};\<close>\<close>
  "subcommand_fix tool typos cmd =
     (if length (script_parts cmd) > 1 then
        do {
          p1 \<leftarrow> vec_at (script_parts cmd) 1;
          (case typos p1 of
             Some fixed \<Rightarrow> Some [tool @ fixed]
           | None \<Rightarrow> Some [script cmd])
        }
      else Some [script cmd])"

definition DockerNotCommandRule_match :: "Command \<Rightarrow> bool option" where
  "DockerNotCommandRule_match cmd =
     Some (starts_with (script cmd) ''docker '' \<and>
           contains (output cmd) ''is not a docker command'')"

definition DockerNotCommandRule_get_new_command :: "Command \<Rightarrow> string list option" where
  "DockerNotCommandRule_get_new_command cmd =
     subcommand_fix ''docker '' (map_of [(''tags'', ''images''), (''tag'', ''image'')]) cmd"

definition NpmWrongCommandRule_match :: "Command \<Rightarrow> bool option" where
  "NpmWrongCommandRule_match cmd =
     Some (starts_with (script cmd) ''npm '' \<and> contains (output cmd) ''Unknown command'')"

definition NpmWrongCommandRule_get_new_command :: "Command \<Rightarrow> string list option" where
  "NpmWrongCommandRule_get_new_command cmd =
     subcommand_fix ''npm ''
       (map_of [(''urgrade'', ''upgrade''), (''isntall'', ''install''),
                (''instal'', ''install''), (''intsall'', ''install'')]) cmd"

definition PipUnknownCommandRule_match :: "Command \<Rightarrow> bool option" where
  "PipUnknownCommandRule_match cmd =
     Some (starts_with (script cmd) ''pip '' \<and> contains (output cmd) ''unknown command'')"

definition PipUnknownCommandRule_get_new_command :: "Command \<Rightarrow> string list option" where
  "PipUnknownCommandRule_get_new_command cmd =
     subcommand_fix ''pip ''
       (map_of [(''instatl'', ''install''), (''instal'', ''install''),
                (''isntall'', ''install''), (''unisntall'', ''uninstall'')]) cmd"

definition GitCloneGitCloneRule_match :: "Command \<Rightarrow> bool option" where
  "GitCloneGitCloneRule_match cmd = Some (starts_with (script cmd) ''git clone git clone'')"

definition GitCloneGitCloneRule_get_new_command :: "Command \<Rightarrow> string list option" where
  "GitCloneGitCloneRule_get_new_command cmd = do { r \<leftarrow> substr (script cmd) 10; Some [r] }"

definition WrongHyphenBeforeSubcommandRule_match :: "Command \<Rightarrow> bool option" where
  "WrongHyphenBeforeSubcommandRule_match cmd =
     sc_and (Some (contains (output cmd) ''command not found''))
    (sc_and (Some (length (script_parts cmd) > 0))
            (do { p0 \<leftarrow> vec_at (script_parts cmd) 0; Some (contains p0 ''-'') }))"

definition WrongHyphenBeforeSubcommandRule_get_new_command :: "Command \<Rightarrow> string list option" where
  "WrongHyphenBeforeSubcommandRule_get_new_command cmd =
     (case string_find (script cmd) ''-'' of
        Some pos \<Rightarrow> Some [(script cmd)[pos := CHR '' '']]
      | None \<Rightarrow> Some [script cmd])"

definition MissingSpaceBeforeSubcommandRule_match :: "Command \<Rightarrow> bool option" where
  "MissingSpaceBeforeSubcommandRule_match cmd =
     Some (contains (output cmd) ''command not found'' \<and>
           (starts_with (script cmd) ''npm'' \<or>
            starts_with (script cmd) ''git'' \<or>
            starts_with (script cmd) ''apt''))"

definition MissingSpaceBeforeSubcommandRule_get_new_command :: "Command \<Rightarrow> string list option" where
  "MissingSpaceBeforeSubcommandRule_get_new_command cmd =
     (if starts_with (script cmd) ''npminstall'' then
        do { r \<leftarrow> substr (script cmd) 10; Some [''npm install'' @ r] }
      else if starts_with (script cmd) ''gitcommit'' then
        do { r \<leftarrow> substr (script cmd) 9; Some [''git commit'' @ r] }
      else if starts_with (script cmd) ''aptinstall'' then
        do { r \<leftarrow> substr (script cmd) 10; Some [''apt install'' @ r] }
      else Some [script cmd])"

definition RemoveShellPromptLiteralRule_match :: "Command \<Rightarrow> bool option" where
  "RemoveShellPromptLiteralRule_match cmd = Some (starts_with (script cmd) ''$ '')"

definition RemoveShellPromptLiteralRule_get_new_command :: "Command \<Rightarrow> string list option" where
  "RemoveShellPromptLiteralRule_get_new_command cmd = do { r \<leftarrow> substr (script cmd) 2; Some [r] }"

definition TouchRule_match :: "Command \<Rightarrow> bool option" where
  "TouchRule_match cmd =
     Some (starts_with (script cmd) ''touch '' \<and>
           contains (output cmd) ''No such file or directory'')"

definition TouchRule_get_new_command :: "Command \<Rightarrow> string list option" where
  "TouchRule_get_new_command cmd =
     do {
       path \<leftarrow> substr (script cmd) 6;
       (case string_rfind path (CHR ''/'') of
          Some last_slash \<Rightarrow>
            do {
              dir \<leftarrow> substr_n path 0 last_slash;
              Some [''mkdir -p '' @ dir @ '' && touch '' @ path]
            }
        | None \<Rightarrow> Some [script cmd])
     }"

definition UnsudoRule_match :: "Command \<Rightarrow> bool option" where
  "UnsudoRule_match cmd =
     Some (starts_with (script cmd) ''sudo '' \<and>
           (contains (output cmd) ''must not be run as root'' \<or>
            contains (output cmd) (''don'' @ [CHR 0x27] @ ''t run this as root'')))"

definition UnsudoRule_get_new_command :: "Command \<Rightarrow> string list option" where
  "UnsudoRule_get_new_command cmd = do { r \<leftarrow> substr (script cmd) 5; Some [r] }"

definition LnSOrderRule_match :: "Command \<Rightarrow> bool option" where
  "LnSOrderRule_match cmd =
     Some (starts_with (script cmd) ''ln -s'' \<and>
           contains (output cmd) ''No such file or directory'')"

definition LnSOrderRule_get_new_command :: "Command \<Rightarrow> string list option" where
  "LnSOrderRule_get_new_command cmd =
     (if length (script_parts cmd) \<ge> 4 then
        do {
          p3 \<leftarrow> vec_at (script_parts cmd) 3;
          p2 \<leftarrow> vec_at (script_parts cmd) 2;
          Some [''ln -s '' @ p3 @ '' '' @ p2]
        }
      else Some [script cmd])"

definition Cpp11Rule_match :: "Command \<Rightarrow> bool option" where
  "Cpp11Rule_match cmd =
     Some ((starts_with (script cmd) ''g++ '' \<or> starts_with (script cmd) ''clang++ '') \<and>
           \<not> contains (script cmd) ''-std='' \<and>
           (contains (output cmd) ''C++11'' \<or> contains (output cmd) ''c++11''))"

definition Cpp11Rule_get_new_command :: "Command \<Rightarrow> string list option" where
  "Cpp11Rule_get_new_command cmd = Some [script cmd @ '' -std=c++11'']"

definition GitMainMasterRule_match :: "Command \<Rightarrow> bool option" where
  "GitMainMasterRule_match cmd =
     Some ((contains (script cmd) ''master'' \<and>
            contains (output cmd) (''did you mean '' @ [CHR 0x27] @ ''main'' @ [CHR 0x27])) \<or>
           (contains (script cmd) ''main'' \<and>
            contains (output cmd) (''did you mean '' @ [CHR 0x27] @ ''master'' @ [CHR 0x27])))"

definition GitMainMasterRule_get_new_command :: "Command \<Rightarrow> string list option" where
  \<comment> \<open>\<^verbatim>\<open>replace(npos, ...)\<close> throws \<^verbatim>\<open>std::out_of_range\<close>.\<close>
  "GitMainMasterRule_get_new_command cmd =
     (if contains (script cmd) ''master'' then
        (case string_find (script cmd) ''master'' of
           Some pos \<Rightarrow> map_option (\<lambda>fixed. [fixed]) (string_replace (script cmd) pos 6 ''main'')
         | None \<Rightarrow> None)
      else
        (case string_find (script cmd) ''main'' of
           Some pos \<Rightarrow> map_option (\<lambda>fixed. [fixed]) (string_replace (script cmd) pos 4 ''master'')
         | None \<Rightarrow> None))"

subsection \<open>namespace fuzzy\<close>

type_synonym table = "int list list"

definition tbl_get :: "table \<Rightarrow> nat \<Rightarrow> nat \<Rightarrow> int option" where
  \<comment> \<open>Reading \<^verbatim>\<open>dp[i][j]\<close>.\<close>
  "tbl_get dp i j = (if i < length dp \<and> j < length (dp ! i) then Some (dp ! i ! j) else None)"

definition tbl_set :: "table \<Rightarrow> nat \<Rightarrow> nat \<Rightarrow> int \<Rightarrow> table option" where
  \<comment> \<open>The assignment \<^verbatim>\<open>dp[i][j] = v\<close>.\<close>
  "tbl_set dp i j v =
     (if i < length dp \<and> j < length (dp ! i) then Some (dp[i := (dp ! i)[j := v]]) else None)"

fun for_each :: "'a list \<Rightarrow> ('a \<Rightarrow> 's \<Rightarrow> 's option) \<Rightarrow> 's \<Rightarrow> 's option" where
  \<comment> \<open>A \<^verbatim>\<open>for\<close> loop over the listed values of its counter; it stops at the first
      iteration that fails.\<close>
  "for_each [] body s = Some s"
| "for_each (x # xs) body s =
     (case body x s of None \<Rightarrow> None | Some s' \<Rightarrow> for_each xs body s')"

definition lev_cell :: "string \<Rightarrow> string \<Rightarrow> nat \<Rightarrow> nat \<Rightarrow> table \<Rightarrow> table option" where
  \<comment> \<open>The body of the inner loop of \<^verbatim>\<open>levenshtein_distance\<close>.\<close>
  "lev_cell s1 s2 i j dp =
     do {
       a \<leftarrow> char_at s1 (i - 1);
       b \<leftarrow> char_at s2 (j - 1);
       if a = b then
         do { d \<leftarrow> tbl_get dp (i - 1) (j - 1); tbl_set dp i j d }
       else
         do {
           u \<leftarrow> tbl_get dp (i - 1) j;
           l \<leftarrow> tbl_get dp i (j - 1);
           d \<leftarrow> tbl_get dp (i - 1) (j - 1);
           tbl_set dp i j (1 + min u (min l d))
         }
     }"

definition levenshtein_distance :: "string \<Rightarrow> string \<Rightarrow> int option" where
  "levenshtein_distance s1 s2 =
     (let len1 = length s1; len2 = length s2 in
      do {
        dp \<leftarrow> Some (replicate (len1 + 1) (replicate (len2 + 1) 0));
        dp \<leftarrow> for_each [0..<len1 + 1] (\<lambda>i dp. tbl_set dp i 0 (int i)) dp;
        dp \<leftarrow> for_each [0..<len2 + 1] (\<lambda>j dp. tbl_set dp 0 j (int j)) dp;
        dp \<leftarrow> for_each [1..<len1 + 1]
               (\<lambda>i dp. for_each [1..<len2 + 1] (\<lambda>j dp. lev_cell s1 s2 i j dp) dp) dp;
        tbl_get dp len1 len2
      })"

record CommandMatch =
  command :: string
  distance :: int

definition compare_matches :: "CommandMatch \<Rightarrow> CommandMatch \<Rightarrow> bool" where
  "compare_matches a b \<longleftrightarrow> distance a < distance b"

definition rule_less :: "rule \<Rightarrow> rule \<Rightarrow> bool" where
  \<comment> \<open>The comparison the rule manager sorts by.\<close>
  "rule_less a b \<longleftrightarrow> get_priority a < get_priority b"

definition std_sort_post :: "('a \<Rightarrow> 'a \<Rightarrow> bool) \<Rightarrow> 'a list \<Rightarrow> 'a list \<Rightarrow> bool" where
  \<comment> \<open>What the C++ standard promises of \<^verbatim>\<open>std::sort(first, last, comp)\<close>, a library
      function outside the repository: the range afterwards holds the same elements, and
      no element is less (by the comparison \<open>lt\<close>) than one before it. It makes no promise on the order
      of equivalent elements (\<^verbatim>\<open>std::stable_sort\<close> does).\<close>
  "std_sort_post lt xs ys \<longleftrightarrow> mset ys = mset xs \<and> sorted_wrt (\<lambda>a b. \<not> lt b a) ys"

record env =
  cached_commands :: "string list"
  file_exists :: "string \<Rightarrow> bool"
  sort_matches :: "CommandMatch list \<Rightarrow> CommandMatch list"
  sort_rules :: "rule list \<Rightarrow> rule list"

text \<open>
  \<open>cached_commands\<close> is what \<^verbatim>\<open>get_command_cache().get_commands()\<close> returns: the names
  \<^verbatim>\<open>get_system_commands()\<close> found in the directories of \<^verbatim>\<open>PATH\<close> at the first call, in
  the order it found them, the same list at every later call of the process.
  \<open>file_exists\<close> is \<^verbatim>\<open>utils::file_exists\<close>, the answer of \<^verbatim>\<open>stat\<close>. \<open>sort_matches\<close> and
  \<open>sort_rules\<close> are what \<^verbatim>\<open>std::sort\<close> does at its two call sites.
\<close>

definition std_sort_ok :: "env \<Rightarrow> bool" where
  \<comment> \<open>Both instances of \<^verbatim>\<open>std::sort\<close> do what the standard promises.\<close>
  "std_sort_ok e \<longleftrightarrow>
     (\<forall>xs. std_sort_post compare_matches xs (sort_matches e xs)) \<and>
     (\<forall>xs. std_sort_post rule_less xs (sort_rules e xs))"

fun similar_loop ::
  "string \<Rightarrow> int \<Rightarrow> string list \<Rightarrow> CommandMatch list \<Rightarrow> CommandMatch list option" where
  \<comment> \<open>The loop of \<^verbatim>\<open>find_similar_commands\<close> over the cached commands.\<close>
  "similar_loop input max_distance [] matches = Some matches"
| "similar_loop input max_distance (cmd # cmds) matches =
     do {
       dist \<leftarrow> levenshtein_distance input cmd;
       similar_loop input max_distance cmds
         (if dist \<le> max_distance then matches @ [\<lparr>command = cmd, distance = dist\<rparr>]
          else matches)
     }"

definition find_similar_commands :: "env \<Rightarrow> string \<Rightarrow> int \<Rightarrow> CommandMatch list option" where
  "find_similar_commands e input max_distance =
     do {
       matches \<leftarrow> similar_loop input max_distance (cached_commands e) [];
       Some (sort_matches e matches)
     }"

subsection \<open>The two rules that consult the system\<close>

definition FuzzyCommandRule_match :: "env \<Rightarrow> Command \<Rightarrow> bool option" where
  \<comment> \<open>\<^verbatim>\<open>find_similar_commands\<close> is called with its default \<^verbatim>\<open>max_distance = 2\<close>.\<close>
  "FuzzyCommandRule_match e cmd =
     (if \<not> contains (output cmd) ''command not found'' then Some False
      else if script_parts cmd = [] then Some False
      else do {
        p0 \<leftarrow> vec_at (script_parts cmd) 0;
        matches \<leftarrow> find_similar_commands e p0 2;
        Some (matches \<noteq> [])
      })"

definition FuzzyCommandRule_get_new_command :: "env \<Rightarrow> Command \<Rightarrow> string list option" where
  "FuzzyCommandRule_get_new_command e cmd =
     (if script_parts cmd = [] then Some []
      else do {
        p0 \<leftarrow> vec_at (script_parts cmd) 0;
        matches \<leftarrow> find_similar_commands e p0 3;
        Some (map (\<lambda>m. append_parts (command m) (script_parts cmd) 1) (take 3 matches))
      })"

definition HasExistsScriptRule_match :: "env \<Rightarrow> Command \<Rightarrow> bool option" where
  "HasExistsScriptRule_match e cmd =
     sc_and (Some (contains (output cmd) ''command not found''))
    (sc_and (Some (script_parts cmd \<noteq> []))
            (do { p0 \<leftarrow> vec_at (script_parts cmd) 0; Some (file_exists e p0) }))"

definition HasExistsScriptRule_get_new_command :: "Command \<Rightarrow> string list option" where
  "HasExistsScriptRule_get_new_command cmd = Some [''./'' @ script cmd]"

subsection \<open>class RuleManager\<close>

definition registered_rules :: "env \<Rightarrow> rule list" where
  \<comment> \<open>The vector \<^verbatim>\<open>rules\<close> after the 44 calls of \<^verbatim>\<open>push_back\<close>.\<close>
  "registered_rules e =
     [RULE_CLASS ''SudoRule'' SudoRule_match SudoRule_get_new_command,
      RULE_CLASS ''FuzzyCommandRule'' (FuzzyCommandRule_match e) (FuzzyCommandRule_get_new_command e),
      RULE_CLASS ''GitPushRule'' GitPushRule_match GitPushRule_get_new_command,
      RULE_CLASS ''NoCommandRule'' NoCommandRule_match NoCommandRule_get_new_command,
      RULE_CLASS ''GitNotCommandRule'' GitNotCommandRule_match GitNotCommandRule_get_new_command,
      RULE_CLASS ''CdMkdirRule'' CdMkdirRule_match CdMkdirRule_get_new_command,
      RULE_CLASS ''CdParentRule'' CdParentRule_match CdParentRule_get_new_command,
      RULE_CLASS ''CdCsRule'' CdCsRule_match CdCsRule_get_new_command,
      RULE_CLASS ''CatDirRule'' CatDirRule_match CatDirRule_get_new_command,
      RULE_CLASS ''ChmodXRule'' ChmodXRule_match ChmodXRule_get_new_command,
      RULE_CLASS ''CpOmittingDirectoryRule''
        CpOmittingDirectoryRule_match CpOmittingDirectoryRule_get_new_command,
      RULE_CLASS ''DryRule'' DryRule_match DryRule_get_new_command,
      RULE_CLASS ''GitAddRule'' GitAddRule_match GitAddRule_get_new_command,
      RULE_CLASS ''GitAddForceRule'' GitAddForceRule_match GitAddForceRule_get_new_command,
      RULE_CLASS ''GitBranchDeleteRule''
        GitBranchDeleteRule_match GitBranchDeleteRule_get_new_command,
      RULE_CLASS ''GitCommitAddRule'' GitCommitAddRule_match GitCommitAddRule_get_new_command,
      RULE_CLASS ''GitCommitAmendRule''
        GitCommitAmendRule_match GitCommitAmendRule_get_new_command,
      RULE_CLASS ''GitPullRule'' GitPullRule_match GitPullRule_get_new_command,
      RULE_CLASS ''GitTwoDashesRule'' GitTwoDashesRule_match GitTwoDashesRule_get_new_command,
      RULE_CLASS ''GrepRecursiveRule'' GrepRecursiveRule_match GrepRecursiveRule_get_new_command,
      RULE_CLASS ''HasExistsScriptRule''
        (HasExistsScriptRule_match e) HasExistsScriptRule_get_new_command,
      RULE_CLASS ''LsAllRule'' LsAllRule_match LsAllRule_get_new_command,
      RULE_CLASS ''LsLahRule'' LsLahRule_match LsLahRule_get_new_command,
      RULE_CLASS ''MkdirPRule'' MkdirPRule_match MkdirPRule_get_new_command,
      RULE_CLASS ''RmDirRule'' RmDirRule_match RmDirRule_get_new_command,
      RULE_CLASS ''SlLsRule'' SlLsRule_match SlLsRule_get_new_command,
      RULE_CLASS ''PythonCommandRule'' PythonCommandRule_match PythonCommandRule_get_new_command,
      RULE_CLASS ''PythonExecuteRule'' PythonExecuteRule_match PythonExecuteRule_get_new_command,
      RULE_CLASS ''JavaRule'' JavaRule_match JavaRule_get_new_command,
      RULE_CLASS ''JavacRule'' JavacRule_match JavacRule_get_new_command,
      RULE_CLASS ''GoRunRule'' GoRunRule_match GoRunRule_get_new_command,
      RULE_CLASS ''CargoRule'' CargoRule_match CargoRule_get_new_command,
      RULE_CLASS ''DockerNotCommandRule''
        DockerNotCommandRule_match DockerNotCommandRule_get_new_command,
      RULE_CLASS ''NpmWrongCommandRule''
        NpmWrongCommandRule_match NpmWrongCommandRule_get_new_command,
      RULE_CLASS ''PipUnknownCommandRule''
        PipUnknownCommandRule_match PipUnknownCommandRule_get_new_command,
      RULE_CLASS ''GitCloneGitCloneRule''
        GitCloneGitCloneRule_match GitCloneGitCloneRule_get_new_command,
      RULE_CLASS ''WrongHyphenBeforeSubcommandRule''
        WrongHyphenBeforeSubcommandRule_match WrongHyphenBeforeSubcommandRule_get_new_command,
      RULE_CLASS ''MissingSpaceBeforeSubcommandRule''
        MissingSpaceBeforeSubcommandRule_match MissingSpaceBeforeSubcommandRule_get_new_command,
      RULE_CLASS ''RemoveShellPromptLiteralRule''
        RemoveShellPromptLiteralRule_match RemoveShellPromptLiteralRule_get_new_command,
      RULE_CLASS ''TouchRule'' TouchRule_match TouchRule_get_new_command,
      RULE_CLASS ''UnsudoRule'' UnsudoRule_match UnsudoRule_get_new_command,
      RULE_CLASS ''LnSOrderRule'' LnSOrderRule_match LnSOrderRule_get_new_command,
      RULE_CLASS ''Cpp11Rule'' Cpp11Rule_match Cpp11Rule_get_new_command,
      RULE_CLASS ''GitMainMasterRule'' GitMainMasterRule_match GitMainMasterRule_get_new_command]"

definition RuleManager :: "env \<Rightarrow> rule list" where
  \<comment> \<open>The member \<^verbatim>\<open>rules\<close> after the constructor: the registered rules, sorted by
      \<^verbatim>\<open>std::sort\<close> with the comparison of priorities.\<close>
  "RuleManager e = sort_rules e (registered_rules e)"

fun dispatch :: "rule list \<Rightarrow> Command \<Rightarrow> rule list \<times> string list option" where
  \<comment> \<open>The loop of \<^verbatim>\<open>get_corrected_commands\<close> (its debug branch has an empty body). The
      first component records the rules whose \<^verbatim>\<open>get_new_command\<close> the loop called, the
      second is what the loop returns.\<close>
  "dispatch [] cmd = ([], Some [])"
| "dispatch (r # rs) cmd =
     (case match r cmd of
        None \<Rightarrow> ([], None)
      | Some True \<Rightarrow> ([r], get_new_command r cmd)
      | Some False \<Rightarrow> dispatch rs cmd)"

definition get_corrected_commands :: "rule list \<Rightarrow> Command \<Rightarrow> string list option" where
  "get_corrected_commands rules cmd = snd (dispatch rules cmd)"

definition corrections_called :: "rule list \<Rightarrow> Command \<Rightarrow> rule list" where
  "corrections_called rules cmd = fst (dispatch rules cmd)"

subsection \<open>std::sort as GNU libstdc++ implements it\<close>

text \<open>
  The program is a Linux program (\<^verbatim>\<open>dirent.h\<close>, \<^verbatim>\<open>sys/wait.h\<close>), built against GNU
  libstdc++. Its \<^verbatim>\<open>std::sort\<close> (\<^verbatim>\<open>bits/stl_algo.h\<close>) is an introsort: ranges of more than
  16 elements are partitioned around a median of three, and a final insertion sort
  finishes. The functions below follow that code, on a vector given as a list and
  iterators given as positions; a read outside the vector is \<open>None\<close>. The switch to heap
  sort (\<^verbatim>\<open>__partial_sort\<close>, taken when the depth limit reaches 0 on a range of more than
  16 elements) is not embedded: the model has no value there (\<open>None\<close>).
\<close>

definition iter_swap :: "'a list \<Rightarrow> nat \<Rightarrow> nat \<Rightarrow> 'a list option" where
  "iter_swap v i j =
     (if i < length v \<and> j < length v then Some (v[i := v ! j, j := v ! i]) else None)"

definition comp_at :: "('a \<Rightarrow> 'a \<Rightarrow> bool) \<Rightarrow> 'a list \<Rightarrow> nat \<Rightarrow> nat \<Rightarrow> bool option" where
  \<comment> \<open>\<^verbatim>\<open>__comp(i, j)\<close> on two iterators: the comparison of the elements they point to.\<close>
  "comp_at lt v i j = (if i < length v \<and> j < length v then Some (lt (v ! i) (v ! j)) else None)"

definition move_median_to_first ::
  "('a \<Rightarrow> 'a \<Rightarrow> bool) \<Rightarrow> 'a list \<Rightarrow> nat \<Rightarrow> nat \<Rightarrow> nat \<Rightarrow> nat \<Rightarrow> 'a list option" where
  "move_median_to_first lt v result a b c =
     do {
       ab \<leftarrow> comp_at lt v a b;
       if ab then
         do {
           bc \<leftarrow> comp_at lt v b c;
           if bc then iter_swap v result b
           else do {
             ac \<leftarrow> comp_at lt v a c;
             if ac then iter_swap v result c else iter_swap v result a
           }
         }
       else
         do {
           ac \<leftarrow> comp_at lt v a c;
           if ac then iter_swap v result a
           else do {
             bc \<leftarrow> comp_at lt v b c;
             if bc then iter_swap v result c else iter_swap v result b
           }
         }
     }"

fun linear_insert_loop :: "('a \<Rightarrow> 'a \<Rightarrow> bool) \<Rightarrow> 'a \<Rightarrow> 'a list \<Rightarrow> nat \<Rightarrow> 'a list option" where
  \<comment> \<open>The loop of \<^verbatim>\<open>__unguarded_linear_insert\<close>, with \<^verbatim>\<open>__last\<close> as the last argument and
      \<^verbatim>\<open>__next\<close> just before it:
      \<^verbatim>\<open>while (comp(val, next)) { *last = *next; last = next; --next; } *last = val;\<close>
      Nothing stops \<^verbatim>\<open>__next\<close> at the start of the vector.\<close>
  "linear_insert_loop lt val v 0 = None"
| "linear_insert_loop lt val v (Suc nxt) =
     (if lt val (v ! nxt) then linear_insert_loop lt val (v[Suc nxt := v ! nxt]) nxt
      else Some (v[Suc nxt := val]))"

definition unguarded_linear_insert :: "('a \<Rightarrow> 'a \<Rightarrow> bool) \<Rightarrow> 'a list \<Rightarrow> nat \<Rightarrow> 'a list option" where
  "unguarded_linear_insert lt v lastp =
     (if lastp < length v then linear_insert_loop lt (v ! lastp) v lastp else None)"

definition insertion_sort :: "('a \<Rightarrow> 'a \<Rightarrow> bool) \<Rightarrow> 'a list \<Rightarrow> nat \<Rightarrow> nat \<Rightarrow> 'a list option" where
  \<comment> \<open>\<^verbatim>\<open>__insertion_sort\<close>: an element less than the first is moved to the front
      (\<^verbatim>\<open>move_backward(first, i, i + 1); *first = val;\<close>), any other is inserted
      unguarded.\<close>
  "insertion_sort lt v first lastp =
     (if first = lastp then Some v
      else for_each [first + 1..<lastp]
        (\<lambda>i v. do {
           c \<leftarrow> comp_at lt v i first;
           if c then
             Some (take first v @ [v ! i] @ take (i - first) (drop first v) @ drop (i + 1) v)
           else unguarded_linear_insert lt v i
         }) v)"

definition unguarded_insertion_sort ::
  "('a \<Rightarrow> 'a \<Rightarrow> bool) \<Rightarrow> 'a list \<Rightarrow> nat \<Rightarrow> nat \<Rightarrow> 'a list option" where
  "unguarded_insertion_sort lt v first lastp =
     for_each [first..<lastp] (\<lambda>i v. unguarded_linear_insert lt v i) v"

definition final_insertion_sort ::
  "('a \<Rightarrow> 'a \<Rightarrow> bool) \<Rightarrow> 'a list \<Rightarrow> nat \<Rightarrow> nat \<Rightarrow> 'a list option" where
  \<comment> \<open>\<^verbatim>\<open>_S_threshold\<close> is 16.\<close>
  "final_insertion_sort lt v first lastp =
     (if lastp - first > 16 then
        do {
          v \<leftarrow> insertion_sort lt v first (first + 16);
          unguarded_insertion_sort lt v (first + 16) lastp
        }
      else insertion_sort lt v first lastp)"

function scan_up :: "('a \<Rightarrow> 'a \<Rightarrow> bool) \<Rightarrow> 'a list \<Rightarrow> nat \<Rightarrow> nat \<Rightarrow> nat option" where
  \<comment> \<open>\<^verbatim>\<open>while (comp(first, pivot)) ++first;\<close>\<close>
  "scan_up lt v first pivot =
     (if first < length v \<and> pivot < length v then
        (if lt (v ! first) (v ! pivot) then scan_up lt v (Suc first) pivot else Some first)
      else None)"
  by pat_completeness auto
termination
  by (relation "measure (\<lambda>(lt, v, first, pivot). length v - first)") auto

fun scan_down :: "('a \<Rightarrow> 'a \<Rightarrow> bool) \<Rightarrow> 'a list \<Rightarrow> nat \<Rightarrow> nat \<Rightarrow> nat option" where
  \<comment> \<open>\<^verbatim>\<open>while (comp(pivot, last)) --last;\<close>\<close>
  "scan_down lt v 0 pivot =
     (if 0 < length v \<and> pivot < length v then
        (if lt (v ! pivot) (v ! 0) then None else Some 0)
      else None)"
| "scan_down lt v (Suc l) pivot =
     (if Suc l < length v \<and> pivot < length v then
        (if lt (v ! pivot) (v ! Suc l) then scan_down lt v l pivot else Some (Suc l))
      else None)"

function unguarded_partition ::
  "('a \<Rightarrow> 'a \<Rightarrow> bool) \<Rightarrow> 'a list \<Rightarrow> nat \<Rightarrow> nat \<Rightarrow> nat \<Rightarrow> ('a list \<times> nat) option" where
  \<comment> \<open>\<^verbatim>\<open>while (true) { while (comp(first, pivot)) ++first; --last;
      while (comp(pivot, last)) --last; if (!(first < last)) return first;
      iter_swap(first, last); ++first; }\<close>
      The result is the vector and the returned position.\<close>
  "unguarded_partition lt v first lastp pivot =
     (case scan_up lt v first pivot of
        None \<Rightarrow> None
      | Some f \<Rightarrow>
          (case lastp of
             0 \<Rightarrow> None
           | Suc l \<Rightarrow>
               (case scan_down lt v l pivot of
                  None \<Rightarrow> None
                | Some l' \<Rightarrow>
                    if \<not> f < l' then Some (v, f)
                    else (case iter_swap v f l' of
                            None \<Rightarrow> None
                          | Some v' \<Rightarrow> unguarded_partition lt v' (Suc f) l' pivot))))"
  by pat_completeness auto
termination
proof (relation "measure (\<lambda>(lt, v, first, lastp, pivot). lastp)")
  show "wf (measure (\<lambda>(lt, v, first, lastp, pivot). lastp))"
    by simp
next
  fix lt :: "'a \<Rightarrow> 'a \<Rightarrow> bool" and v v' :: "'a list" and first lastp pivot f l l' :: nat
  assume "lastp = Suc l" and d: "scan_down lt v l pivot = Some l'"
  have "scan_down lt v k pivot = Some k' \<Longrightarrow> k' \<le> k" for k k'
    by (induction k) (auto split: if_splits)
  from this [OF d] \<open>lastp = Suc l\<close>
  show "((lt, v', Suc f, l', pivot), lt, v, first, lastp, pivot)
      \<in> measure (\<lambda>(lt, v, first, lastp, pivot). lastp)"
    by simp
qed

definition unguarded_partition_pivot ::
  "('a \<Rightarrow> 'a \<Rightarrow> bool) \<Rightarrow> 'a list \<Rightarrow> nat \<Rightarrow> nat \<Rightarrow> ('a list \<times> nat) option" where
  "unguarded_partition_pivot lt v first lastp =
     (let mid = first + (lastp - first) div 2 in
      do {
        v \<leftarrow> move_median_to_first lt v first (first + 1) mid (lastp - 1);
        unguarded_partition lt v (first + 1) lastp first
      })"

fun introsort_loop ::
  "('a \<Rightarrow> 'a \<Rightarrow> bool) \<Rightarrow> 'a list \<Rightarrow> nat \<Rightarrow> nat \<Rightarrow> nat \<Rightarrow> 'a list option" where
  \<comment> \<open>\<^verbatim>\<open>while (last - first > 16) { if (depth_limit == 0) { __partial_sort(...); return; }
      --depth_limit; cut = __unguarded_partition_pivot(first, last, comp);
      __introsort_loop(cut, last, depth_limit, comp); last = cut; }\<close>\<close>
  "introsort_loop lt v first lastp 0 = (if lastp - first > 16 then None else Some v)"
| "introsort_loop lt v first lastp (Suc depth_limit) =
     (if lastp - first > 16 then
        do {
          (v, cut) \<leftarrow> unguarded_partition_pivot lt v first lastp;
          v \<leftarrow> introsort_loop lt v cut lastp depth_limit;
          introsort_loop lt v first cut depth_limit
        }
      else Some v)"

fun lg :: "nat \<Rightarrow> nat" where
  \<comment> \<open>\<^verbatim>\<open>std::__lg\<close>: the position of the highest set bit.\<close>
  "lg n = (if n < 2 then 0 else Suc (lg (n div 2)))"

definition libstdcxx_sort :: "('a \<Rightarrow> 'a \<Rightarrow> bool) \<Rightarrow> 'a list \<Rightarrow> 'a list option" where
  \<comment> \<open>\<^verbatim>\<open>std::__sort\<close> on the whole vector.\<close>
  "libstdcxx_sort lt v =
     (if v = [] then Some v
      else do {
        v \<leftarrow> introsort_loop lt v 0 (length v) (lg (length v) * 2);
        final_insertion_sort lt v 0 (length v)
      })"

subsection \<open>Two systems\<close>

definition stable_env :: "string list \<Rightarrow> (string \<Rightarrow> bool) \<Rightarrow> env" where
  \<comment> \<open>A system whose \<^verbatim>\<open>std::sort\<close> is an insertion sort, which keeps equivalent elements
      in their order.\<close>
  "stable_env cmds fe =
     \<lparr>cached_commands = cmds, file_exists = fe,
      sort_matches = sort_key distance, sort_rules = sort_key get_priority\<rparr>"

definition libstdcxx_env :: "string list \<Rightarrow> (string \<Rightarrow> bool) \<Rightarrow> env" where
  \<comment> \<open>A system with GNU libstdc++. Where the embedding of its sort has no value the
      fields are unspecified; the theorems stated at this system state the value of the
      sort on their input.\<close>
  "libstdcxx_env cmds fe =
     \<lparr>cached_commands = cmds, file_exists = fe,
      sort_matches = (\<lambda>xs. the (libstdcxx_sort compare_matches xs)),
      sort_rules = (\<lambda>xs. the (libstdcxx_sort rule_less xs))\<rparr>"

subsection \<open>The matcher's candidates as the specification words them\<close>

definition within_distance :: "env \<Rightarrow> string \<Rightarrow> int \<Rightarrow> CommandMatch list" where
  \<comment> \<open>The specification's words: the indexed names whose edit distance to the query is
      at most the threshold, each with its distance, in the index's enumeration order.\<close>
  "within_distance e input k =
     List.map_filter
       (\<lambda>name. case levenshtein_distance input name of
                 Some d \<Rightarrow> if d \<le> k then Some \<lparr>command = name, distance = d\<rparr> else None
               | None \<Rightarrow> None)
       (cached_commands e)"

subsection \<open>Auxiliary definitions of the proofs\<close>

fun lev_rec :: "string \<Rightarrow> string \<Rightarrow> nat \<Rightarrow> nat \<Rightarrow> int" where
  \<comment> \<open>The recurrence the table is filled by: the value of cell \<open>(i, j)\<close>.\<close>
  "lev_rec s1 s2 0 j = int j"
| "lev_rec s1 s2 (Suc i) 0 = int (Suc i)"
| "lev_rec s1 s2 (Suc i) (Suc j) =
     (if s1 ! i = s2 ! j then lev_rec s1 s2 i j
      else 1 + min (lev_rec s1 s2 i (Suc j)) (min (lev_rec s1 s2 (Suc i) j) (lev_rec s1 s2 i j)))"

definition filled :: "string \<Rightarrow> string \<Rightarrow> (nat \<Rightarrow> nat \<Rightarrow> bool) \<Rightarrow> table \<Rightarrow> bool" where
  \<comment> \<open>The loop invariant: the table has its dimensions, and the cells in region \<open>R\<close>
      hold the values of the recurrence.\<close>
  "filled s1 s2 R dp \<longleftrightarrow>
     length dp = Suc (length s1) \<and>
     (\<forall>a \<le> length s1. length (dp ! a) = Suc (length s2)) \<and>
     (\<forall>a \<le> length s1. \<forall>b \<le> length s2. R a b \<longrightarrow> dp ! a ! b = lev_rec s1 s2 a b)"

subsection \<open>Tokenization as the specification words it\<close>

fun fragments :: "(char \<Rightarrow> bool) \<Rightarrow> string \<Rightarrow> string list" where
  \<comment> \<open>The pieces of a string between separator characters, empty pieces included.\<close>
  "fragments sep [] = [[]]"
| "fragments sep (c # cs) =
     (if sep c then [] # fragments sep cs
      else (c # hd (fragments sep cs)) # tl (fragments sep cs))"

definition whitespace_split :: "string \<Rightarrow> string list" where
  \<comment> \<open>The specification's words: the whitespace-split of the script with empty fragments
      removed, order preserved.\<close>
  "whitespace_split s = filter (\<lambda>f. f \<noteq> []) (fragments isspace s)"

definition space_split :: "string \<Rightarrow> string list" where
  \<comment> \<open>The same with the space character as the only separator.\<close>
  "space_split s = filter (\<lambda>f. f \<noteq> []) (fragments (\<lambda>c. c = CHR '' '') s)"

section \<open>Properties\<close>

subsection \<open>Tokenization\<close>

lemma fragments_not_Nil: "fragments sep s \<noteq> []"
  by (induction s) auto

lemma fragments_unfold:
  "fragments sep s =
     takeWhile (\<lambda>x. \<not> sep x) s #
       (case dropWhile (\<lambda>x. \<not> sep x) s of [] \<Rightarrow> [] | x # r \<Rightarrow> fragments sep r)"
proof (induction s)
  case Nil
  show ?case by simp
next
  case (Cons c cs)
  show ?case
  proof (cases "sep c")
    case True
    then show ?thesis by simp
  next
    case False
    have "fragments sep cs = hd (fragments sep cs) # tl (fragments sep cs)"
      using fragments_not_Nil [of sep cs] by simp
    with Cons False show ?thesis
      by (metis (no_types, lifting) dropWhile.simps(2) fragments.simps(2) list.sel(1,3)
          takeWhile.simps(2))
  qed
qed

text \<open>
  \<open>fragments\<close> is the split: joining the fragments with the separator gives the string
  back, and no fragment holds a separator.
\<close>

lemma fragments_join:
  "tl (concat (map (\<lambda>f. d # f) (fragments (\<lambda>c. c = d) s))) = s"
proof (induction s)
  case Nil
  show ?case by simp
next
  case (Cons c cs)
  obtain f fs where fr: "fragments (\<lambda>c. c = d) cs = f # fs"
    using fragments_not_Nil [of "\<lambda>c. c = d" cs] by (cases "fragments (\<lambda>c. c = d) cs") auto
  with Cons have cs: "cs = f @ concat (map (\<lambda>f. d # f) fs)" by simp
  show ?case
  proof (cases "c = d")
    case True
    then show ?thesis using fr cs by simp
  next
    case False
    then show ?thesis using fr cs by simp
  qed
qed

lemma fragments_no_separator:
  "f \<in> set (fragments sep s) \<Longrightarrow> \<forall>c \<in> set f. \<not> sep c"
proof (induction s arbitrary: f)
  case Nil
  then show ?case by simp
next
  case (Cons c cs)
  obtain g gs where fr: "fragments sep cs = g # gs"
    using fragments_not_Nil [of sep cs] by (cases "fragments sep cs") auto
  show ?case
  proof (cases "sep c")
    case True
    with Cons show ?thesis by auto
  next
    case False
    with Cons.prems fr have "f = c # g \<or> f \<in> set gs" by simp
    then show ?thesis
      using Cons.IH [of g] Cons.IH [of f] fr False by auto
  qed
qed

lemma split_loop_fragments:
  "split_loop s d parts = parts @ filter (\<lambda>f. f \<noteq> []) (fragments (\<lambda>c. c = d) s)"
proof (induction s d parts rule: split_loop.induct)
  case (1 iss delim parts)
  show ?case
  proof (cases iss)
    case Nil
    then show ?thesis by (subst split_loop.simps) simp
  next
    case (Cons c cs)
    define part where "part = takeWhile (\<lambda>x. x \<noteq> delim) iss"
    define rest where "rest = drop 1 (dropWhile (\<lambda>x. x \<noteq> delim) iss)"
    define parts' where "parts' = (if part \<noteq> [] then parts @ [part] else parts)"
    have g: "getline iss delim = Some (part, rest)"
      using Cons by (simp add: part_def rest_def)
    have step: "split_loop iss delim parts = split_loop rest delim parts'"
      using g by (subst split_loop.simps) (simp add: parts'_def)
    have ih: "split_loop rest delim parts' =
        parts' @ filter (\<lambda>f. f \<noteq> []) (fragments (\<lambda>c. c = delim) rest)"
      using "1.IH" [OF g refl] by (simp add: parts'_def)
    have fr: "fragments (\<lambda>c. c = delim) iss =
        part # (case dropWhile (\<lambda>x. x \<noteq> delim) iss of [] \<Rightarrow> []
                | x # r \<Rightarrow> fragments (\<lambda>c. c = delim) r)"
      using fragments_unfold [of "\<lambda>c. c = delim" iss] by (simp add: part_def)
    show ?thesis
    proof (cases "dropWhile (\<lambda>x. x \<noteq> delim) iss")
      case Nil
      have "rest = []" unfolding rest_def Nil by simp
      then show ?thesis unfolding step ih fr Nil by (simp add: parts'_def)
    next
      case (Cons x r)
      have "rest = r" unfolding rest_def Cons by simp
      then show ?thesis unfolding step ih fr Cons by (simp add: parts'_def)
    qed
  qed
qed

text \<open>
  C3 (as the claim states it, refuted): the tokens of a constructed Command are the
  whitespace-split of its script. The script \<^verbatim>\<open>a<TAB>b\<close> has the single token
  \<^verbatim>\<open>a<TAB>b\<close>, where the whitespace-split has the two fragments \<^verbatim>\<open>a\<close> and \<^verbatim>\<open>b\<close>.
\<close>

theorem tokens_whitespace_counterexample:
  "script_parts (new_Command (''a'' @ [CHR 0x09] @ ''b'') ''x'') = [''a'' @ [CHR 0x09] @ ''b''] \<and>
   whitespace_split (''a'' @ [CHR 0x09] @ ''b'') = [''a'', ''b''] \<and>
   script_parts (new_Command (''a'' @ [CHR 0x09] @ ''b'') ''x'')
     \<noteq> whitespace_split (''a'' @ [CHR 0x09] @ ''b'')"
  by (simp add: new_Command_def split_def split_loop_fragments whitespace_split_def isspace_def)

text \<open>
  C3 (amended): for every script \<open>s\<close> and output \<open>out\<close>, the tokens of the Command
  constructed from them are the fragments of \<open>s\<close> between space characters (the only
  separator), empty fragments removed, order preserved; script and output are stored as
  given.
\<close>

theorem tokens_space_split:
  "script_parts (new_Command s out) = space_split s \<and>
   script (new_Command s out) = s \<and> output (new_Command s out) = out"
  by (simp add: new_Command_def split_def split_loop_fragments space_split_def)

theorem tokens_space_split_witness:
  "script_parts (new_Command ''git  push origin '' ''x'') = [''git'', ''push'', ''origin'']"
  using tokens_space_split [of "''git  push origin ''" "''x''"]
  by (simp add: space_split_def)

subsection \<open>The Levenshtein table\<close>

lemma for_each_upt_invariant:
  assumes "I lo s" and "lo \<le> hi"
    and "\<And>k s. lo \<le> k \<Longrightarrow> k < hi \<Longrightarrow> I k s \<Longrightarrow> \<exists>s'. body k s = Some s' \<and> I (Suc k) s'"
  shows "\<exists>s'. for_each [lo..<hi] body s = Some s' \<and> I hi s'"
  using assms
proof (induction "hi - lo" arbitrary: lo s)
  case 0
  then show ?case by simp
next
  case (Suc n)
  then have lt: "lo < hi" by simp
  from Suc.prems(3) [OF le_refl lt Suc.prems(1)]
  obtain s1 where s1: "body lo s = Some s1" "I (Suc lo) s1" by blast
  have "\<exists>s'. for_each [Suc lo..<hi] body s1 = Some s' \<and> I hi s'"
  proof (rule Suc.hyps(1))
    show "n = hi - Suc lo" using Suc.hyps(2) by simp
    show "I (Suc lo) s1" by (rule s1)
    show "Suc lo \<le> hi" using lt by simp
    show "\<And>k s. Suc lo \<le> k \<Longrightarrow> k < hi \<Longrightarrow> I k s \<Longrightarrow> \<exists>s'. body k s = Some s' \<and> I (Suc k) s'"
      using Suc.prems(3) by simp
  qed
  then show ?case using lt s1 by (simp add: upt_conv_Cons)
qed

lemma filled_weaken:
  assumes "filled s1 s2 R dp"
    and "\<And>a b. a \<le> length s1 \<Longrightarrow> b \<le> length s2 \<Longrightarrow> R' a b \<Longrightarrow> R a b"
  shows "filled s1 s2 R' dp"
  using assms unfolding filled_def by blast

lemma tbl_get_filled:
  assumes "filled s1 s2 R dp" and "a \<le> length s1" and "b \<le> length s2" and "R a b"
  shows "tbl_get dp a b = Some (lev_rec s1 s2 a b)"
  using assms unfolding filled_def tbl_get_def by (simp add: less_Suc_eq_le)

lemma tbl_set_filled:
  assumes f: "filled s1 s2 R dp" and a: "a \<le> length s1" and b: "b \<le> length s2"
    and v: "v = lev_rec s1 s2 a b"
    and R': "\<And>x y. R' x y \<Longrightarrow> R x y \<or> (x = a \<and> y = b)"
  shows "\<exists>dp'. tbl_set dp a b v = Some dp' \<and> filled s1 s2 R' dp'"
proof -
  let ?dp' = "dp[a := (dp ! a)[b := v]]"
  from f have len: "length dp = Suc (length s1)"
    and rows: "\<And>x. x \<le> length s1 \<Longrightarrow> length (dp ! x) = Suc (length s2)"
    and cells: "\<And>x y. x \<le> length s1 \<Longrightarrow> y \<le> length s2 \<Longrightarrow> R x y \<Longrightarrow> dp ! x ! y = lev_rec s1 s2 x y"
    unfolding filled_def by auto
  have set: "tbl_set dp a b v = Some ?dp'"
    using len rows [OF a] a b by (simp add: tbl_set_def)
  have "filled s1 s2 R' ?dp'"
    unfolding filled_def
  proof (intro conjI allI impI)
    show "length ?dp' = Suc (length s1)" using len by simp
  next
    fix x assume "x \<le> length s1"
    then show "length (?dp' ! x) = Suc (length s2)"
      using len rows by (cases "x = a") simp_all
  next
    fix x y assume x: "x \<le> length s1" and y: "y \<le> length s2" and r: "R' x y"
    show "?dp' ! x ! y = lev_rec s1 s2 x y"
    proof (cases "x = a \<and> y = b")
      case True
      then show ?thesis using len rows [OF a] a b v by simp
    next
      case False
      then have "R x y" using R' [OF r] by blast
      then have old: "dp ! x ! y = lev_rec s1 s2 x y" using cells x y by blast
      show ?thesis
      proof (cases "x = a")
        case True
        with False have "y \<noteq> b" by simp
        then show ?thesis using True old len a by simp
      next
        case False
        then show ?thesis using old by simp
      qed
    qed
  qed
  with set show ?thesis by blast
qed

lemma char_at_in: "i < length s \<Longrightarrow> char_at s i = Some (s ! i)"
  by (simp add: char_at_def)

lemma lev_cell_filled:
  assumes f: "filled s1 s2 (\<lambda>a b. a < i \<or> b = 0 \<or> (a = i \<and> b < j)) dp"
    and i: "1 \<le> i" "i \<le> length s1" and j: "1 \<le> j" "j \<le> length s2"
  shows "\<exists>dp'. lev_cell s1 s2 i j dp = Some dp' \<and>
    filled s1 s2 (\<lambda>a b. a < i \<or> b = 0 \<or> (a = i \<and> b < Suc j)) dp'"
proof -
  obtain i' j' where ij: "i = Suc i'" "j = Suc j'"
    using i j by (cases i; cases j) auto
  have c1: "char_at s1 (i - 1) = Some (s1 ! i')" and c2: "char_at s2 (j - 1) = Some (s2 ! j')"
    using i j ij by (simp_all add: char_at_in)
  have d: "tbl_get dp (i - 1) (j - 1) = Some (lev_rec s1 s2 i' j')"
    using tbl_get_filled [OF f, of i' j'] i j ij by simp
  have u: "tbl_get dp (i - 1) j = Some (lev_rec s1 s2 i' (Suc j'))"
    using tbl_get_filled [OF f, of i' j] i j ij by simp
  have l: "tbl_get dp i (j - 1) = Some (lev_rec s1 s2 (Suc i') j')"
    using tbl_get_filled [OF f, of i j'] i j ij by simp
  have step: "\<And>v. v = lev_rec s1 s2 i j \<Longrightarrow> \<exists>dp'. tbl_set dp i j v = Some dp' \<and>
      filled s1 s2 (\<lambda>a b. a < i \<or> b = 0 \<or> (a = i \<and> b < Suc j)) dp'"
    by (rule tbl_set_filled [OF f i(2) j(2)]) (auto simp: less_Suc_eq)
  show ?thesis
  proof (cases "s1 ! i' = s2 ! j'")
    case True
    then have "lev_cell s1 s2 i j dp = tbl_set dp i j (lev_rec s1 s2 i' j')"
      unfolding lev_cell_def c1 c2 d by simp
    moreover have "lev_rec s1 s2 i' j' = lev_rec s1 s2 i j"
      using True ij by simp
    ultimately show ?thesis using step by simp
  next
    case False
    then have "lev_cell s1 s2 i j dp =
        tbl_set dp i j (1 + min (lev_rec s1 s2 i' (Suc j')) (min (lev_rec s1 s2 (Suc i') j') (lev_rec s1 s2 i' j')))"
      unfolding lev_cell_def c1 c2 d u l by simp
    moreover have "1 + min (lev_rec s1 s2 i' (Suc j')) (min (lev_rec s1 s2 (Suc i') j') (lev_rec s1 s2 i' j'))
        = lev_rec s1 s2 i j"
      using False ij by simp
    ultimately show ?thesis using step by simp
  qed
qed

lemma lev_row_filled:
  assumes f: "filled s1 s2 (\<lambda>a b. a < i \<or> b = 0) dp" and i: "1 \<le> i" "i \<le> length s1"
  shows "\<exists>dp'. for_each [1..<length s2 + 1] (\<lambda>j dp. lev_cell s1 s2 i j dp) dp = Some dp' \<and>
    filled s1 s2 (\<lambda>a b. a < Suc i \<or> b = 0) dp'"
proof -
  let ?I = "\<lambda>j. filled s1 s2 (\<lambda>a b. a < i \<or> b = 0 \<or> (a = i \<and> b < j))"
  have "\<exists>dp'. for_each [1..<length s2 + 1] (\<lambda>j dp. lev_cell s1 s2 i j dp) dp = Some dp' \<and>
      ?I (length s2 + 1) dp'"
  proof (rule for_each_upt_invariant [where I = ?I])
    show "?I 1 dp" by (rule filled_weaken [OF f]) auto
    show "1 \<le> length s2 + 1" by simp
    show "\<exists>s'. lev_cell s1 s2 i k s = Some s' \<and> ?I (Suc k) s'"
      if "1 \<le> k" "k < length s2 + 1" "?I k s" for k s
      using lev_cell_filled [OF that(3) i that(1)] that(2) by simp
  qed
  then obtain dp' where r: "for_each [1..<length s2 + 1] (\<lambda>j dp. lev_cell s1 s2 i j dp) dp = Some dp'"
    and f': "?I (length s2 + 1) dp'" by blast
  have "filled s1 s2 (\<lambda>a b. a < Suc i \<or> b = 0) dp'"
    by (rule filled_weaken [OF f']) (auto simp: less_Suc_eq)
  with r show ?thesis by blast
qed

lemma filled_init: "filled s1 s2 (\<lambda>a b. False) (replicate (length s1 + 1) (replicate (length s2 + 1) 0))"
  by (simp add: filled_def less_Suc_eq_le del: replicate_Suc replicate.simps)

lemma lev_rec_0 [simp]: "lev_rec s1 s2 a 0 = int a"
  by (cases a) simp_all

lemma levenshtein_distance_lev_rec:
  "levenshtein_distance s1 s2 = Some (lev_rec s1 s2 (length s1) (length s2))"
proof -
  let ?n = "length s1" and ?m = "length s2"
  let ?dp0 = "replicate (?n + 1) (replicate (?m + 1) (0::int))"
  have "\<exists>dp'. for_each [0..<?n + 1] (\<lambda>i dp. tbl_set dp i 0 (int i)) ?dp0 = Some dp' \<and>
      filled s1 s2 (\<lambda>a b. b = 0 \<and> a < ?n + 1) dp'"
  proof (rule for_each_upt_invariant [where I = "\<lambda>k. filled s1 s2 (\<lambda>a b. b = 0 \<and> a < k)"])
    show "filled s1 s2 (\<lambda>a b. b = 0 \<and> a < 0) ?dp0"
      by (rule filled_weaken [OF filled_init]) simp
    show "0 \<le> ?n + 1" by simp
    show "\<exists>s'. tbl_set s k 0 (int k) = Some s' \<and> filled s1 s2 (\<lambda>a b. b = 0 \<and> a < Suc k) s'"
      if "0 \<le> k" "k < ?n + 1" "filled s1 s2 (\<lambda>a b. b = 0 \<and> a < k) s" for k s
      by (rule tbl_set_filled [OF that(3)]) (use that(2) in \<open>auto simp: less_Suc_eq\<close>)
  qed
  then obtain dp1 where r1: "for_each [0..<?n + 1] (\<lambda>i dp. tbl_set dp i 0 (int i)) ?dp0 = Some dp1"
    and f1: "filled s1 s2 (\<lambda>a b. b = 0 \<and> a < ?n + 1) dp1" by blast
  have "\<exists>dp'. for_each [0..<?m + 1] (\<lambda>j dp. tbl_set dp 0 j (int j)) dp1 = Some dp' \<and>
      filled s1 s2 (\<lambda>a b. b = 0 \<or> (a = 0 \<and> b < ?m + 1)) dp'"
  proof (rule for_each_upt_invariant [where I = "\<lambda>k. filled s1 s2 (\<lambda>a b. b = 0 \<or> (a = 0 \<and> b < k))"])
    show "filled s1 s2 (\<lambda>a b. b = 0 \<or> (a = 0 \<and> b < 0)) dp1"
      by (rule filled_weaken [OF f1]) auto
    show "0 \<le> ?m + 1" by simp
    show "\<exists>s'. tbl_set s 0 k (int k) = Some s' \<and> filled s1 s2 (\<lambda>a b. b = 0 \<or> (a = 0 \<and> b < Suc k)) s'"
      if "0 \<le> k" "k < ?m + 1" "filled s1 s2 (\<lambda>a b. b = 0 \<or> (a = 0 \<and> b < k)) s" for k s
      by (rule tbl_set_filled [OF that(3)]) (use that(2) in \<open>auto simp: less_Suc_eq\<close>)
  qed
  then obtain dp2 where r2: "for_each [0..<?m + 1] (\<lambda>j dp. tbl_set dp 0 j (int j)) dp1 = Some dp2"
    and f2: "filled s1 s2 (\<lambda>a b. b = 0 \<or> (a = 0 \<and> b < ?m + 1)) dp2" by blast
  let ?row = "\<lambda>i dp. for_each [1..<?m + 1] (\<lambda>j dp. lev_cell s1 s2 i j dp) dp"
  have "\<exists>dp'. for_each [1..<?n + 1] ?row dp2 = Some dp' \<and>
      filled s1 s2 (\<lambda>a b. a < ?n + 1 \<or> b = 0) dp'"
  proof (rule for_each_upt_invariant [where I = "\<lambda>k. filled s1 s2 (\<lambda>a b. a < k \<or> b = 0)"])
    show "filled s1 s2 (\<lambda>a b. a < 1 \<or> b = 0) dp2"
      by (rule filled_weaken [OF f2]) auto
    show "1 \<le> ?n + 1" by simp
    show "\<exists>s'. ?row k s = Some s' \<and> filled s1 s2 (\<lambda>a b. a < Suc k \<or> b = 0) s'"
      if "1 \<le> k" "k < ?n + 1" "filled s1 s2 (\<lambda>a b. a < k \<or> b = 0) s" for k s
      using lev_row_filled [OF that(3) that(1)] that(2) by simp
  qed
  then obtain dp3 where r3: "for_each [1..<?n + 1] ?row dp2 = Some dp3"
    and f3: "filled s1 s2 (\<lambda>a b. a < ?n + 1 \<or> b = 0) dp3" by blast
  have "tbl_get dp3 ?n ?m = Some (lev_rec s1 s2 ?n ?m)"
    by (rule tbl_get_filled [OF f3]) simp_all
  then show ?thesis
    unfolding levenshtein_distance_def Let_def by (simp only: r1 r2 r3 bind.bind_lunit)
qed

lemma lev_rec_sym: "lev_rec s1 s2 i j = lev_rec s2 s1 j i"
  by (induction s1 s2 i j rule: lev_rec.induct) (simp_all add: min.commute min.left_commute)

lemma lev_rec_diag: "lev_rec a a i i = 0"
  by (induction i) simp_all

subsection \<open>Strings; the elevation rule\<close>

lemma starts_with_prefix: "starts_with s p \<longleftrightarrow> prefix p s"
  by (cases s) (auto simp: starts_with_def)

lemma string_find_in_set:
  "string_find s sub = Some k \<Longrightarrow> set sub \<subseteq> set s"
proof (induction s arbitrary: k)
  case Nil
  then show ?case by (simp split: if_splits)
next
  case (Cons c cs)
  show ?case
  proof (cases "prefix sub (c # cs)")
    case True
    then show ?thesis by (rule set_mono_prefix)
  next
    case False
    with Cons.prems obtain k' where "string_find cs sub = Some k'" by auto
    from Cons.IH [OF this] show ?thesis by auto
  qed
qed

lemma contains_set: "contains s sub \<Longrightarrow> set sub \<subseteq> set s"
  unfolding contains_def using string_find_in_set by blast

lemma tolower_not_upper: "tolower c \<notin> set ''ABCDEFGHIJKLMNOPQRSTUVWXYZ''"
proof -
  define U where "U = ''ABCDEFGHIJKLMNOPQRSTUVWXYZ''"
  define L where "L = ''abcdefghijklmnopqrstuvwxyz''"
  have len: "length U = length L" by (simp add: U_def L_def)
  have disj: "set L \<inter> set U = {}" by (simp add: U_def L_def)
  have tl: "tolower c = (case map_of (zip U L) c of Some l \<Rightarrow> l | None \<Rightarrow> c)"
    by (simp only: tolower_def U_def L_def)
  have "tolower c \<notin> set U"
  proof (cases "map_of (zip U L) c")
    case None
    then have "c \<notin> fst ` set (zip U L)" by (simp add: map_of_eq_None_iff)
    moreover have "fst ` set (zip U L) = set U"
      using len by (metis map_fst_zip set_map)
    ultimately show ?thesis using None by (simp add: tl)
  next
    case (Some l)
    then have "(c, l) \<in> set (zip U L)" by (rule map_of_SomeD)
    then have "l \<in> set L" by (rule set_zip_rightD)
    with disj have "l \<notin> set U" by blast
    with Some show ?thesis by (simp add: tl)
  qed
  then show ?thesis unfolding U_def .
qed

lemma to_lower_no_upper: "set (to_lower s) \<inter> set ''ABCDEFGHIJKLMNOPQRSTUVWXYZ'' = {}"
  using tolower_not_upper by (auto simp: to_lower_def simp del: list.set)

lemma to_lower_not_contains_E: "\<not> contains (to_lower s) (CHR ''E'' # rest)"
proof
  assume "contains (to_lower s) (CHR ''E'' # rest)"
  then have "CHR ''E'' \<in> set (to_lower s)" using contains_set by fastforce
  moreover have "CHR ''E'' \<in> set ''ABCDEFGHIJKLMNOPQRSTUVWXYZ''" by simp
  ultimately show False using to_lower_no_upper [of s] by blast
qed

lemma to_lower_not_contains_P: "\<not> contains (to_lower s) (CHR ''P'' # rest)"
proof
  assume "contains (to_lower s) (CHR ''P'' # rest)"
  then have "CHR ''P'' \<in> set (to_lower s)" using contains_set by fastforce
  moreover have "CHR ''P'' \<in> set ''ABCDEFGHIJKLMNOPQRSTUVWXYZ''" by simp
  ultimately show False using to_lower_no_upper [of s] by blast
qed

lemma SudoRule_match_eq:
  "SudoRule_match cmd =
     Some (contains (to_lower (output cmd)) ''permission denied'' \<or>
           contains (output cmd) ''unless you are root'')"
  using to_lower_not_contains_E [of "output cmd" "''ACCES''"]
    to_lower_not_contains_P [of "output cmd" "''ermission denied''"]
  by (simp add: SudoRule_match_def Let_def)

text \<open>
  C6 (the code misses one of the three cases): SudoRule is to match every Command whose
  output contains \<^verbatim>\<open>EACCES\<close>. The predicate looks for the upper-case text \<^verbatim>\<open>EACCES\<close> in the
  lower-cased copy of the output, where it never occurs (\<open>SudoRule_match_eq\<close>): an npm
  error that reports \<^verbatim>\<open>EACCES\<close> without the words "permission denied" is not matched.
\<close>

theorem SudoRule_misses_EACCES:
  "SudoRule_match (new_Command ''npm install -g yarn'' ''npm ERR! code EACCES'') = Some False"
  by (simp add: SudoRule_match_def new_Command_def contains_def to_lower_def tolower_def)

subsection \<open>Symmetry of the distance\<close>

text \<open>
  C8: for all strings \<open>a\<close> and \<open>b\<close>, \<open>levenshtein_distance a b\<close> returns, and returns the
  value \<open>levenshtein_distance b a\<close> returns; \<open>levenshtein_distance a a\<close> returns 0.
\<close>

theorem levenshtein_distance_symmetric:
  "(\<exists>d. levenshtein_distance a b = Some d \<and> levenshtein_distance b a = Some d) \<and>
   levenshtein_distance a a = Some 0"
  by (simp add: levenshtein_distance_lev_rec lev_rec_diag lev_rec_sym [of a b])

subsection \<open>Dispatch\<close>

lemma dispatch_find:
  assumes "\<forall>r \<in> set rules. match r cmd \<noteq> None"
  shows "dispatch rules cmd =
    (case List.find (\<lambda>r. match r cmd = Some True) rules of
       None \<Rightarrow> ([], Some [])
     | Some r \<Rightarrow> ([r], get_new_command r cmd))"
  using assms
proof (induction rules)
  case Nil
  show ?case by simp
next
  case (Cons r rs)
  then obtain b where b: "match r cmd = Some b" by auto
  show ?case
  proof (cases b)
    case True
    with b show ?thesis by simp
  next
    case False
    with b Cons show ?thesis by simp
  qed
qed

text \<open>
  C1: for every list of rules (the sorted registry is one) and every Command on which
  the predicates of the rules return, \<open>get_corrected_commands\<close> returns the candidate
  list of the first rule of the list whose \<open>match\<close> is true, and the empty list when no
  rule's \<open>match\<close> is true; the loop calls \<open>get_new_command\<close> of that first matching rule
  and of no other, so of at most one rule.
\<close>

theorem get_corrected_commands_first_match:
  assumes "\<forall>r \<in> set rules. match r cmd \<noteq> None"
  shows "get_corrected_commands rules cmd =
      (case List.find (\<lambda>r. match r cmd = Some True) rules of
         None \<Rightarrow> Some []
       | Some r \<Rightarrow> get_new_command r cmd) \<and>
    corrections_called rules cmd =
      (case List.find (\<lambda>r. match r cmd = Some True) rules of
         None \<Rightarrow> []
       | Some r \<Rightarrow> [r]) \<and>
    length (corrections_called rules cmd) \<le> 1"
  unfolding get_corrected_commands_def corrections_called_def dispatch_find [OF assms]
  by (simp split: option.split)

subsection \<open>The fallbacks of the capturing rules\<close>

lemma string_find_None_suffix:
  "string_find s sub = None \<Longrightarrow> suffix t s \<Longrightarrow> \<not> prefix sub t"
proof (induction s)
  case Nil
  then show ?case by (auto split: if_splits)
next
  case (Cons c cs)
  from Cons.prems(1) have np: "\<not> prefix sub (c # cs)" and n: "string_find cs sub = None"
    by (auto split: if_splits)
  from Cons.prems(2) have "t = c # cs \<or> suffix t cs"
    by (simp add: suffix_Cons)
  then show ?case using np Cons.IH [OF n] by auto
qed

lemma regex_search_Some_suffix:
  "regex_search here s = Some g \<Longrightarrow> \<exists>t. suffix t s \<and> here t = Some g"
proof (induction s)
  case Nil
  then show ?case by auto
next
  case (Cons c cs)
  show ?case
  proof (cases "here (c # cs)")
    case None
    with Cons.prems have "regex_search here cs = Some g" by simp
    from Cons.IH [OF this] show ?thesis by (auto simp: suffix_Cons)
  next
    case (Some g')
    with Cons.prems have "g' = g" by simp
    with Some show ?thesis by auto
  qed
qed

lemma branch_regex_not_contained:
  assumes "\<not> contains out ''git push --set-upstream origin ''"
  shows "regex_search branch_regex out = None"
proof (rule ccontr)
  assume "regex_search branch_regex out \<noteq> None"
  then obtain g where "regex_search branch_regex out = Some g" by auto
  then obtain t where t: "suffix t out" "branch_regex t = Some g"
    using regex_search_Some_suffix by blast
  from t(2) have "prefix ''git push --set-upstream origin '' t"
    by (simp add: branch_regex_def split: if_splits)
  moreover have "string_find out ''git push --set-upstream origin '' = None"
    using assms by (simp add: contains_def)
  ultimately show False using string_find_None_suffix t(1) by blast
qed

lemma did_you_mean_not_contained:
  assumes "\<not> contains out ''The most similar command is''"
  shows "regex_search did_you_mean out = None"
proof (rule ccontr)
  assume "regex_search did_you_mean out \<noteq> None"
  then obtain g where "regex_search did_you_mean out = Some g" by auto
  then obtain t where t: "suffix t out" "did_you_mean t = Some g"
    using regex_search_Some_suffix by blast
  from t(2) have "prefix ''The most similar command is'' t"
    by (simp add: did_you_mean_def split: if_splits)
  moreover have "string_find out ''The most similar command is'' = None"
    using assms by (simp add: contains_def)
  ultimately show False using string_find_None_suffix t(1) by blast
qed

text \<open>
  C10: when the regular-expression capture fails, GitPushRule returns the one candidate
  \<^verbatim>\<open>git push --set-upstream origin master\<close> and GitNotCommandRule returns the original
  script unchanged. The capture fails in particular when the output does not hold the
  literal text the pattern starts with. On every Command (matched or not, capture or
  not) each of the two rules returns a list of exactly one candidate and never fails.
\<close>

theorem regex_capture_fallback:
  "(regex_search branch_regex (output cmd) = None \<longrightarrow>
      GitPushRule_get_new_command cmd = Some [''git push --set-upstream origin master'']) \<and>
   (regex_search did_you_mean (output cmd) = None \<longrightarrow>
      GitNotCommandRule_get_new_command cmd = Some [script cmd]) \<and>
   (\<not> contains (output cmd) ''git push --set-upstream origin '' \<longrightarrow>
      regex_search branch_regex (output cmd) = None) \<and>
   (\<not> contains (output cmd) ''The most similar command is'' \<longrightarrow>
      regex_search did_you_mean (output cmd) = None) \<and>
   (\<exists>c. GitPushRule_get_new_command cmd = Some [c]) \<and>
   (\<exists>c. GitNotCommandRule_get_new_command cmd = Some [c])"
  using branch_regex_not_contained [of "output cmd"] did_you_mean_not_contained [of "output cmd"]
  by (simp add: GitPushRule_get_new_command_def GitNotCommandRule_get_new_command_def
      split: option.split)

subsection \<open>Constructed Commands; the predicates return\<close>

lemma new_Command_sel [simp]:
  "script (new_Command s out) = s"
  "output (new_Command s out) = out"
  "script_parts (new_Command s out) = space_split s"
  by (simp_all add: new_Command_def split_def split_loop_fragments space_split_def)

lemma space_split_token_not_Nil: "t \<in> set (space_split s) \<Longrightarrow> t \<noteq> []"
  by (auto simp: space_split_def)

lemma space_split_not_Nil:
  assumes "s \<noteq> []" and "hd s \<noteq> CHR '' ''"
  shows "space_split s \<noteq> []"
proof -
  obtain c cs where s: "s = c # cs" using assms(1) by (cases s) auto
  with assms(2) have "c \<noteq> CHR '' ''" by simp
  then show ?thesis by (simp add: space_split_def s)
qed

lemma vec_at_0: "xs \<noteq> [] \<Longrightarrow> vec_at xs 0 = Some (hd xs)"
  by (cases xs) (simp_all add: vec_at_def)

lemma vec_at_in: "i < length xs \<Longrightarrow> vec_at xs i = Some (xs ! i)"
  by (simp add: vec_at_def)

lemma match_RULE_CLASS [simp]:
  "match (RULE_CLASS n m g) = m"
  "get_new_command (RULE_CLASS n m g) = g"
  "get_name (RULE_CLASS n m g) = n"
  "get_priority (RULE_CLASS n m g) = 1000"
  by (simp_all add: RULE_CLASS_def)

lemmas plain_match_defs =
  SudoRule_match_def GitPushRule_match_def NoCommandRule_match_def GitNotCommandRule_match_def
  GitNotRepositoryRule_match_def CdMkdirRule_match_def CdParentRule_match_def CdCsRule_match_def
  CatDirRule_match_def CpOmittingDirectoryRule_match_def GitAddRule_match_def
  GitAddForceRule_match_def GitBranchDeleteRule_match_def GitCommitAddRule_match_def
  GitCommitAmendRule_match_def GitPullRule_match_def GitTwoDashesRule_match_def
  GrepRecursiveRule_match_def LsAllRule_match_def LsLahRule_match_def MkdirPRule_match_def
  RmDirRule_match_def SlLsRule_match_def PythonExecuteRule_match_def JavacRule_match_def
  GoRunRule_match_def CargoRule_match_def DockerNotCommandRule_match_def
  NpmWrongCommandRule_match_def PipUnknownCommandRule_match_def GitCloneGitCloneRule_match_def
  MissingSpaceBeforeSubcommandRule_match_def RemoveShellPromptLiteralRule_match_def
  TouchRule_match_def UnsudoRule_match_def LnSOrderRule_match_def Cpp11Rule_match_def
  GitMainMasterRule_match_def

lemmas guarded_match_defs =
  ChmodXRule_match_def DryRule_match_def PythonCommandRule_match_def JavaRule_match_def
  WrongHyphenBeforeSubcommandRule_match_def HasExistsScriptRule_match_def
  FuzzyCommandRule_match_def

lemmas rule_eval_defs = plain_match_defs guarded_match_defs Let_def contains_def starts_with_def
  ends_with_def to_lower_def tolower_def space_split_def vec_at_def vec_back_def char_at_def

lemma sc_and_Some [simp]: "sc_and (Some a) b = (if a then b else Some False)"
  by (simp add: sc_and_def)

lemma similar_loop_Some:
  "similar_loop input m cmds acc =
     Some (acc @ map (\<lambda>c. \<lparr>command = c, distance = lev_rec input c (length input) (length c)\<rparr>)
                  (filter (\<lambda>c. lev_rec input c (length input) (length c) \<le> m) cmds))"
  by (induction cmds arbitrary: acc) (simp_all add: levenshtein_distance_lev_rec)

lemma find_similar_commands_Some:
  "find_similar_commands e input m =
     Some (sort_matches e
       (map (\<lambda>c. \<lparr>command = c, distance = lev_rec input c (length input) (length c)\<rparr>)
            (filter (\<lambda>c. lev_rec input c (length input) (length c) \<le> m) (cached_commands e))))"
  by (simp add: find_similar_commands_def similar_loop_Some)

lemma ChmodXRule_match_total: "ChmodXRule_match (new_Command s out) \<noteq> None"
proof (cases "space_split s")
  case Nil
  then show ?thesis by (auto simp: ChmodXRule_match_def)
next
  case (Cons t ts)
  then have "t \<noteq> []" using space_split_token_not_Nil [of t s] by simp
  then obtain c cs where "t = c # cs" by (cases t) auto
  then show ?thesis
    using Cons by (auto simp: ChmodXRule_match_def vec_at_def char_at_def)
qed

lemma DryRule_match_total: "DryRule_match (new_Command s out) \<noteq> None"
  by (auto simp: DryRule_match_def vec_at_def)

lemma PythonCommandRule_match_total: "PythonCommandRule_match (new_Command s out) \<noteq> None"
  by (cases "space_split s") (auto simp: PythonCommandRule_match_def vec_at_def)

lemma WrongHyphenBeforeSubcommandRule_match_total:
  "WrongHyphenBeforeSubcommandRule_match (new_Command s out) \<noteq> None"
  by (cases "space_split s")
     (auto simp: WrongHyphenBeforeSubcommandRule_match_def vec_at_def)

lemma HasExistsScriptRule_match_total: "HasExistsScriptRule_match e (new_Command s out) \<noteq> None"
  by (cases "space_split s") (auto simp: HasExistsScriptRule_match_def vec_at_def)

lemma JavaRule_match_total: "JavaRule_match (new_Command s out) \<noteq> None"
proof (cases "starts_with s ''java ''")
  case False
  then show ?thesis by (simp add: JavaRule_match_def)
next
  case True
  then have "prefix ''java '' s" by (simp add: starts_with_prefix)
  then obtain r where "s = ''java '' @ r" by (auto simp: prefix_def)
  then have "space_split s \<noteq> []" by (intro space_split_not_Nil) simp_all
  with True show ?thesis by (simp add: JavaRule_match_def vec_back_def)
qed

lemma FuzzyCommandRule_match_total: "FuzzyCommandRule_match e (new_Command s out) \<noteq> None"
  by (cases "space_split s")
     (auto simp: FuzzyCommandRule_match_def vec_at_def find_similar_commands_Some)

lemma registered_rules_total:
  "\<forall>r \<in> set (registered_rules e). match r (new_Command s out) \<noteq> None"
  using ChmodXRule_match_total [of s out] DryRule_match_total [of s out]
      PythonCommandRule_match_total [of s out] WrongHyphenBeforeSubcommandRule_match_total [of s out]
      HasExistsScriptRule_match_total [of e s out] JavaRule_match_total [of s out]
      FuzzyCommandRule_match_total [of e s out]
  unfolding registered_rules_def
  by (simp add: plain_match_defs Let_def del: new_Command_sel)

text \<open>
  C7: on every constructed Command, those with no token or an empty output included,
  the predicate of every registered rule (and of GitNotRepositoryRule, which is defined
  and not registered) returns a truth value: no read of a token position, of a character
  position or of a cell of the Levenshtein table is out of range.
\<close>

theorem match_total:
  "(\<forall>r \<in> set (registered_rules e). match r (new_Command s out) \<noteq> None) \<and>
   GitNotRepositoryRule_match (new_Command s out) \<noteq> None"
  using registered_rules_total [of e s out] by (simp add: GitNotRepositoryRule_match_def)

text \<open>
  The predicates at the edge cases: a one-character first token \<^verbatim>\<open>.\<close>, of which ChmodXRule
  reads position 1 (the terminating NUL), and the empty script.
\<close>

theorem match_total_witness:
  "list_all (\<lambda>r. match r (new_Command ''. x'' ''bash: .: Permission denied'') \<noteq> None)
     (registered_rules (stable_env [] (\<lambda>p. False))) \<and>
   ChmodXRule_match (new_Command ''. x'' ''bash: .: Permission denied'') = Some False \<and>
   JavaRule_match (new_Command '''' '''') = Some False \<and>
   DryRule_match (new_Command '''' '''') = Some False"
proof (intro conjI)
  show "list_all (\<lambda>r. match r (new_Command ''. x'' ''bash: .: Permission denied'') \<noteq> None)
     (registered_rules (stable_env [] (\<lambda>p. False)))"
    using match_total [of "stable_env [] (\<lambda>p. False)" "''. x''" "''bash: .: Permission denied''"]
    unfolding list_all_iff by (rule conjunct1)
qed (simp_all add: rule_eval_defs)

subsection \<open>Sorting\<close>

lemma std_sort_post_sort_key:
  "std_sort_post (\<lambda>a b. f a < f b) xs (sort_key f xs)"
  unfolding std_sort_post_def
  using sorted_sort_key [of f xs] by (simp add: sorted_map not_less)

lemma compare_matches_fun: "compare_matches = (\<lambda>a b. distance a < distance b)"
  by (intro ext) (simp add: compare_matches_def)

lemma rule_less_fun: "rule_less = (\<lambda>a b. get_priority a < get_priority b)"
  by (intro ext) (simp add: rule_less_def)

lemma std_sort_ok_stable_env: "std_sort_ok (stable_env cmds fe)"
  by (simp add: std_sort_ok_def stable_env_def compare_matches_fun rule_less_fun
      std_sort_post_sort_key)

lemma sort_key_all_equal:
  "\<forall>x \<in> set xs. f x = k \<Longrightarrow> sort_key f xs = xs"
proof (induction xs)
  case Nil
  show ?case by simp
next
  case (Cons x xs)
  then have "sort_key f xs = xs" by simp
  then have "sort_key f (x # xs) = insort_key f x xs" by simp
  also have "\<dots> = x # xs" using Cons.prems by (cases xs) simp_all
  finally show ?case .
qed

lemma registered_priorities: "\<forall>r \<in> set (registered_rules e). get_priority r = 1000"
  by (simp add: registered_rules_def)

lemma RuleManager_stable_env:
  "RuleManager (stable_env cmds fe) = registered_rules (stable_env cmds fe)"
  using sort_key_all_equal [OF registered_priorities]
  by (simp add: RuleManager_def stable_env_def)

lemma set_RuleManager:
  assumes "std_sort_ok e"
  shows "set (RuleManager e) = set (registered_rules e)"
proof -
  have "mset (RuleManager e) = mset (registered_rules e)"
    using assms by (simp add: std_sort_ok_def std_sort_post_def RuleManager_def)
  then show ?thesis by (rule mset_eq_setD)
qed

subsection \<open>Dispatch on the registry\<close>

lemma get_corrected_commands_only_match:
  assumes total: "\<forall>r \<in> set rules. match r cmd \<noteq> None"
    and ex: "\<exists>r \<in> set rules. match r cmd = Some True"
    and uniq: "\<forall>r \<in> set rules. match r cmd = Some True \<longrightarrow> get_new_command r cmd = res"
  shows "get_corrected_commands rules cmd = res"
proof -
  from ex obtain r where "List.find (\<lambda>r. match r cmd = Some True) rules = Some r"
    by (cases "List.find (\<lambda>r. match r cmd = Some True) rules") (auto simp: find_None_iff)
  moreover from this have "r \<in> set rules" "match r cmd = Some True"
    by (auto simp: find_Some_iff)
  ultimately show ?thesis
    using uniq by (simp add: get_corrected_commands_def dispatch_find [OF total])
qed

lemma ls_empty_matches:
  "\<forall>r \<in> set (registered_rules e). match r (new_Command ''ls'' '''') \<noteq> None"
  "\<exists>r \<in> set (registered_rules e). match r (new_Command ''ls'' '''') = Some True"
  "\<forall>r \<in> set (registered_rules e). match r (new_Command ''ls'' '''') = Some True \<longrightarrow>
     get_new_command r (new_Command ''ls'' '''') = Some [''ls -A'']"
  unfolding registered_rules_def
  by (simp_all add: rule_eval_defs LsAllRule_get_new_command_def) auto

lemma ls_listing_matches:
  "\<forall>r \<in> set (registered_rules e).
     match r (new_Command ''ls'' (''readme.md'' @ [CHR 0x0A])) \<noteq> None"
  "\<exists>r \<in> set (registered_rules e).
     match r (new_Command ''ls'' (''readme.md'' @ [CHR 0x0A])) = Some True"
  "\<forall>r \<in> set (registered_rules e).
     match r (new_Command ''ls'' (''readme.md'' @ [CHR 0x0A])) = Some True \<longrightarrow>
     get_new_command r (new_Command ''ls'' (''readme.md'' @ [CHR 0x0A])) = Some [''ls -lah'']"
  unfolding registered_rules_def
  by (simp_all add: rule_eval_defs LsLahRule_get_new_command_def) auto

text \<open>
  C9: on every system whose \<^verbatim>\<open>std::sort\<close> keeps its promise, whatever order it leaves the
  registry in, dispatch of the Command with script \<^verbatim>\<open>ls\<close> and empty output returns
  \<^verbatim>\<open>ls -A\<close> (its only and so first candidate), and dispatch of the Command with script
  \<^verbatim>\<open>ls\<close> and output \<^verbatim>\<open>readme.md\n\<close> returns \<^verbatim>\<open>ls -lah\<close>: on each of the two Commands
  exactly one registered rule matches.
\<close>

theorem ls_disambiguation:
  assumes "std_sort_ok e"
  shows "get_corrected_commands (RuleManager e) (new_Command ''ls'' '''') = Some [''ls -A''] \<and>
    get_corrected_commands (RuleManager e) (new_Command ''ls'' (''readme.md'' @ [CHR 0x0A]))
      = Some [''ls -lah'']"
proof
  note s = set_RuleManager [OF assms]
  show "get_corrected_commands (RuleManager e) (new_Command ''ls'' '''') = Some [''ls -A'']"
    by (rule get_corrected_commands_only_match; unfold s; fact ls_empty_matches)
  show "get_corrected_commands (RuleManager e) (new_Command ''ls'' (''readme.md'' @ [CHR 0x0A]))
      = Some [''ls -lah'']"
    by (rule get_corrected_commands_only_match; unfold s; fact ls_listing_matches)
qed

theorem ls_disambiguation_witness:
  "get_corrected_commands (RuleManager (stable_env [''ls'', ''cat''] (\<lambda>p. False)))
      (new_Command ''ls'' '''') = Some [''ls -A''] \<and>
   get_corrected_commands (RuleManager (stable_env [] (\<lambda>p. True)))
      (new_Command ''ls'' (''readme.md'' @ [CHR 0x0A])) = Some [''ls -lah'']"
  using ls_disambiguation [OF std_sort_ok_stable_env, of "[''ls'', ''cat'']" "\<lambda>p. False"]
    ls_disambiguation [OF std_sort_ok_stable_env, of "[]" "\<lambda>p. True"]
  by simp

subsection \<open>The fuzzy rule\<close>

lemma std_sort_ok_Nil_iff:
  assumes "std_sort_ok e"
  shows "sort_matches e xs = [] \<longleftrightarrow> xs = []"
proof -
  have "mset (sort_matches e xs) = mset xs"
    using assms by (simp add: std_sort_ok_def std_sort_post_def)
  then show ?thesis by (metis mset_zero_iff)
qed

lemma FuzzyCommandRule_match_eq:
  assumes "std_sort_ok e"
  shows "FuzzyCommandRule_match e cmd =
    Some (contains (output cmd) ''command not found'' \<and> script_parts cmd \<noteq> [] \<and>
          (\<exists>name \<in> set (cached_commands e). \<exists>d.
              levenshtein_distance (hd (script_parts cmd)) name = Some d \<and> d \<le> 2))"
proof (cases "contains (output cmd) ''command not found'' \<and> script_parts cmd \<noteq> []")
  case False
  then show ?thesis by (auto simp: FuzzyCommandRule_match_def)
next
  case True
  then have "FuzzyCommandRule_match e cmd =
      Some (filter (\<lambda>c. lev_rec (hd (script_parts cmd)) c
              (length (hd (script_parts cmd))) (length c) \<le> 2) (cached_commands e) \<noteq> [])"
    by (simp add: FuzzyCommandRule_match_def vec_at_0 find_similar_commands_Some
        std_sort_ok_Nil_iff [OF assms])
  with True show ?thesis
    by (simp add: filter_empty_conv levenshtein_distance_lev_rec)
qed

text \<open>
  C4 (amended): on a system whose \<^verbatim>\<open>std::sort\<close> keeps its promise, FuzzyCommandRule matches
  a Command exactly when the output contains \<^verbatim>\<open>command not found\<close>, the token list is
  non-empty, and some indexed executable name is within edit distance 2 of the first
  token (the predicate calls the matcher with its default threshold 2; 3 is the threshold
  of the suggestions only).
\<close>

theorem FuzzyCommandRule_match_iff:
  assumes "std_sort_ok e"
  shows "FuzzyCommandRule_match e cmd =
    Some (contains (output cmd) ''command not found'' \<and> script_parts cmd \<noteq> [] \<and>
          (\<exists>name \<in> set (cached_commands e). \<exists>d.
              levenshtein_distance (hd (script_parts cmd)) name = Some d \<and> d \<le> 2))"
  using assms by (rule FuzzyCommandRule_match_eq)

lemma lev_pyth: "levenshtein_distance ''pyth'' ''python3'' = Some 3"
  by code_simp

lemma lev_light: "levenshtein_distance ''light'' ''lighter'' = Some 2"
  by code_simp

text \<open>
  C4 (as the claim states it, refuted): the output says \<^verbatim>\<open>command not found\<close>, the first
  token is \<^verbatim>\<open>pyth\<close>, and the indexed name \<^verbatim>\<open>python3\<close> is at edit distance 3 of it; the rule
  does not match.
\<close>

theorem FuzzyCommandRule_distance_3_counterexample:
  "contains (output (new_Command ''pyth'' ''bash: pyth: command not found'')) ''command not found'' \<and>
   script_parts (new_Command ''pyth'' ''bash: pyth: command not found'') = [''pyth''] \<and>
   cached_commands (stable_env [''python3''] (\<lambda>p. False)) = [''python3''] \<and>
   levenshtein_distance ''pyth'' ''python3'' = Some 3 \<and>
   std_sort_ok (stable_env [''python3''] (\<lambda>p. False)) \<and>
   FuzzyCommandRule_match (stable_env [''python3''] (\<lambda>p. False))
     (new_Command ''pyth'' ''bash: pyth: command not found'') = Some False"
proof (intro conjI)
  show "std_sort_ok (stable_env [''python3''] (\<lambda>p. False))"
    by (rule std_sort_ok_stable_env)
  show "levenshtein_distance ''pyth'' ''python3'' = Some 3"
    by (rule lev_pyth)
  show "FuzzyCommandRule_match (stable_env [''python3''] (\<lambda>p. False))
     (new_Command ''pyth'' ''bash: pyth: command not found'') = Some False"
    by (simp add: lev_pyth FuzzyCommandRule_match_def find_similar_commands_def
        contains_def space_split_def vec_at_def stable_env_def)
qed (simp_all add: contains_def space_split_def stable_env_def)

theorem FuzzyCommandRule_match_iff_witness:
  "FuzzyCommandRule_match (stable_env [''ls'', ''lighter''] (\<lambda>p. False))
     (new_Command ''light'' ''light: command not found'') = Some True"
proof -
  have "\<exists>name \<in> set [''ls'', ''lighter'']. \<exists>d. levenshtein_distance ''light'' name = Some d \<and> d \<le> 2"
    using lev_light by simp
  then show ?thesis
    using FuzzyCommandRule_match_iff [OF std_sort_ok_stable_env, of "[''ls'', ''lighter'']"
        "\<lambda>p. False" "new_Command ''light'' ''light: command not found''"]
    by (simp add: stable_env_def contains_def space_split_def)
qed

text \<open>
  The embedded sort of libstdc++ on small inputs: it sorts, and up to 16 elements it is
  an insertion sort that leaves equivalent elements in their order.
\<close>

lemma libstdcxx_sort_sorts_example:
  "libstdcxx_sort (\<lambda>a b. a < b)
     [5, 3, 9, 1, 0, 7, 2, 8, 4, 6, 15, 13, 19, 11, 10, 17, 12, 18, 14, 16 :: nat]
     = Some [0, 1, 2, 3, 4, 5, 6, 7, 8, 9, 10, 11, 12, 13, 14, 15, 16, 17, 18, 19]"
  by code_simp

lemma libstdcxx_two_ties_keep_order:
  "FuzzyCommandRule_get_new_command (libstdcxx_env [''make'', ''man''] (\<lambda>p. False))
     (new_Command ''mak -j4 all'' ''bash: mak: command not found'')
     = Some [''make -j4 all'', ''man -j4 all'']"
  by code_simp

lemma ls_disambiguation_libstdcxx:
  "get_corrected_commands (RuleManager (libstdcxx_env [''ls'', ''cat''] (\<lambda>p. False)))
      (new_Command ''ls'' '''') = Some [''ls -A''] \<and>
   get_corrected_commands (RuleManager (libstdcxx_env [''ls'', ''cat''] (\<lambda>p. False)))
      (new_Command ''ls'' (''readme.md'' @ [CHR 0x0A])) = Some [''ls -lah'']"
  by code_simp

text \<open>
  C5 (as the claim states it, refuted): ties are claimed to keep the index's enumeration
  order. The index enumerates seventeen two-letter names, \<^verbatim>\<open>ls\<close>, \<^verbatim>\<open>cp\<close>, \<^verbatim>\<open>mv\<close> first, all
  at distance 2 of the token \<^verbatim>\<open>xx\<close>. More than 16 elements are partitioned by the sort of
  libstdc++, which swaps equivalent elements: the three candidates are those of
  \<^verbatim>\<open>dd\<close>, \<^verbatim>\<open>tr\<close> and \<^verbatim>\<open>wc\<close>, the names at positions 8, 16 and 15 of the index.
\<close>

theorem FuzzyCommandRule_tie_order:
  "cached_commands
     (libstdcxx_env
      [''ls'', ''cp'', ''mv'', ''rm'', ''ln'', ''ps'', ''sh'', ''vi'', ''dd'', ''df'',
       ''du'', ''id'', ''nl'', ''od'', ''pr'', ''wc'', ''tr'']
      (\<lambda>p. False)) =
      [''ls'', ''cp'', ''mv'', ''rm'', ''ln'', ''ps'', ''sh'', ''vi'', ''dd'', ''df'',
       ''du'', ''id'', ''nl'', ''od'', ''pr'', ''wc'', ''tr''] \<and>
   map (levenshtein_distance ''xx'')
      [''ls'', ''cp'', ''mv'', ''rm'', ''ln'', ''ps'', ''sh'', ''vi'', ''dd'', ''df'',
       ''du'', ''id'', ''nl'', ''od'', ''pr'', ''wc'', ''tr''] = replicate 17 (Some 2) \<and>
   FuzzyCommandRule_match
     (libstdcxx_env
      [''ls'', ''cp'', ''mv'', ''rm'', ''ln'', ''ps'', ''sh'', ''vi'', ''dd'', ''df'',
       ''du'', ''id'', ''nl'', ''od'', ''pr'', ''wc'', ''tr'']
      (\<lambda>p. False))
     (new_Command ''xx -l'' ''bash: xx: command not found'') = Some True \<and>
   map_option (map command)
     (libstdcxx_sort compare_matches
        (within_distance
           (libstdcxx_env
      [''ls'', ''cp'', ''mv'', ''rm'', ''ln'', ''ps'', ''sh'', ''vi'', ''dd'', ''df'',
       ''du'', ''id'', ''nl'', ''od'', ''pr'', ''wc'', ''tr'']
      (\<lambda>p. False)) ''xx'' 3)) =
     Some
      [''dd'', ''tr'', ''wc'', ''pr'', ''od'', ''nl'', ''id'', ''du'', ''df'', ''ls'',
       ''vi'', ''sh'', ''ps'', ''ln'', ''rm'', ''mv'', ''cp''] \<and>
   FuzzyCommandRule_get_new_command
     (libstdcxx_env
      [''ls'', ''cp'', ''mv'', ''rm'', ''ln'', ''ps'', ''sh'', ''vi'', ''dd'', ''df'',
       ''du'', ''id'', ''nl'', ''od'', ''pr'', ''wc'', ''tr'']
      (\<lambda>p. False))
     (new_Command ''xx -l'' ''bash: xx: command not found'') = Some [''dd -l'', ''tr -l'', ''wc -l'']"
proof (intro conjI)
  show "cached_commands
     (libstdcxx_env
      [''ls'', ''cp'', ''mv'', ''rm'', ''ln'', ''ps'', ''sh'', ''vi'', ''dd'', ''df'',
       ''du'', ''id'', ''nl'', ''od'', ''pr'', ''wc'', ''tr'']
      (\<lambda>p. False)) =
      [''ls'', ''cp'', ''mv'', ''rm'', ''ln'', ''ps'', ''sh'', ''vi'', ''dd'', ''df'',
       ''du'', ''id'', ''nl'', ''od'', ''pr'', ''wc'', ''tr'']"
    by (simp add: libstdcxx_env_def)
  show "map (levenshtein_distance ''xx'')
      [''ls'', ''cp'', ''mv'', ''rm'', ''ln'', ''ps'', ''sh'', ''vi'', ''dd'', ''df'',
       ''du'', ''id'', ''nl'', ''od'', ''pr'', ''wc'', ''tr''] = replicate 17 (Some 2)"
    by code_simp
  show "FuzzyCommandRule_match
     (libstdcxx_env
      [''ls'', ''cp'', ''mv'', ''rm'', ''ln'', ''ps'', ''sh'', ''vi'', ''dd'', ''df'',
       ''du'', ''id'', ''nl'', ''od'', ''pr'', ''wc'', ''tr'']
      (\<lambda>p. False))
     (new_Command ''xx -l'' ''bash: xx: command not found'') = Some True"
    by code_simp
  show "map_option (map command)
     (libstdcxx_sort compare_matches
        (within_distance
           (libstdcxx_env
      [''ls'', ''cp'', ''mv'', ''rm'', ''ln'', ''ps'', ''sh'', ''vi'', ''dd'', ''df'',
       ''du'', ''id'', ''nl'', ''od'', ''pr'', ''wc'', ''tr'']
      (\<lambda>p. False)) ''xx'' 3)) =
     Some
      [''dd'', ''tr'', ''wc'', ''pr'', ''od'', ''nl'', ''id'', ''du'', ''df'', ''ls'',
       ''vi'', ''sh'', ''ps'', ''ln'', ''rm'', ''mv'', ''cp'']"
    by code_simp
  show "FuzzyCommandRule_get_new_command
     (libstdcxx_env
      [''ls'', ''cp'', ''mv'', ''rm'', ''ln'', ''ps'', ''sh'', ''vi'', ''dd'', ''df'',
       ''du'', ''id'', ''nl'', ''od'', ''pr'', ''wc'', ''tr'']
      (\<lambda>p. False))
     (new_Command ''xx -l'' ''bash: xx: command not found'') = Some [''dd -l'', ''tr -l'', ''wc -l'']"
    by code_simp
qed

subsection \<open>The order of the registry\<close>

text \<open>
  C2 (the constructor does not establish it): the registry is to keep the registration
  order among rules of equal priority, and all 44 rules have priority 1000. The
  constructor sorts with \<^verbatim>\<open>std::sort\<close>, not with a stable sort. With libstdc++ the 44
  equivalent rules are partitioned and swapped: the registry starts with
  NpmWrongCommandRule, SudoRule is at position 33 and ChmodXRule at position 31. So
  \<^verbatim>\<open>./run.sh\<close> failing with \<^verbatim>\<open>Permission denied\<close> is corrected to
  \<^verbatim>\<open>chmod +x ./run.sh && ./run.sh\<close>, where the registration order gives
  \<^verbatim>\<open>sudo ./run.sh\<close>.
\<close>

theorem RuleManager_order_not_registration:
  "map_option (map get_name)
     (libstdcxx_sort rule_less (registered_rules (libstdcxx_env [] (\<lambda>p. False)))) =
     Some
      [''NpmWrongCommandRule'', ''MkdirPRule'', ''RmDirRule'', ''SlLsRule'',
       ''PythonCommandRule'', ''PythonExecuteRule'', ''JavaRule'', ''JavacRule'',
       ''GoRunRule'', ''CargoRule'', ''DockerNotCommandRule'', ''LsLahRule'',
       ''PipUnknownCommandRule'', ''GitCloneGitCloneRule'',
       ''WrongHyphenBeforeSubcommandRule'', ''MissingSpaceBeforeSubcommandRule'',
       ''RemoveShellPromptLiteralRule'', ''TouchRule'', ''UnsudoRule'', ''LnSOrderRule'',
       ''Cpp11Rule'', ''GitMainMasterRule'', ''DryRule'', ''FuzzyCommandRule'',
       ''GitPushRule'', ''NoCommandRule'', ''GitNotCommandRule'', ''CdMkdirRule'',
       ''CdParentRule'', ''CdCsRule'', ''CatDirRule'', ''ChmodXRule'',
       ''CpOmittingDirectoryRule'', ''SudoRule'', ''GitAddRule'', ''GitAddForceRule'',
       ''GitBranchDeleteRule'', ''GitCommitAddRule'', ''GitCommitAmendRule'',
       ''GitPullRule'', ''GitTwoDashesRule'', ''GrepRecursiveRule'',
       ''HasExistsScriptRule'', ''LsAllRule''] \<and>
   map get_name (RuleManager (libstdcxx_env [] (\<lambda>p. False))) =
      [''NpmWrongCommandRule'', ''MkdirPRule'', ''RmDirRule'', ''SlLsRule'',
       ''PythonCommandRule'', ''PythonExecuteRule'', ''JavaRule'', ''JavacRule'',
       ''GoRunRule'', ''CargoRule'', ''DockerNotCommandRule'', ''LsLahRule'',
       ''PipUnknownCommandRule'', ''GitCloneGitCloneRule'',
       ''WrongHyphenBeforeSubcommandRule'', ''MissingSpaceBeforeSubcommandRule'',
       ''RemoveShellPromptLiteralRule'', ''TouchRule'', ''UnsudoRule'', ''LnSOrderRule'',
       ''Cpp11Rule'', ''GitMainMasterRule'', ''DryRule'', ''FuzzyCommandRule'',
       ''GitPushRule'', ''NoCommandRule'', ''GitNotCommandRule'', ''CdMkdirRule'',
       ''CdParentRule'', ''CdCsRule'', ''CatDirRule'', ''ChmodXRule'',
       ''CpOmittingDirectoryRule'', ''SudoRule'', ''GitAddRule'', ''GitAddForceRule'',
       ''GitBranchDeleteRule'', ''GitCommitAddRule'', ''GitCommitAmendRule'',
       ''GitPullRule'', ''GitTwoDashesRule'', ''GrepRecursiveRule'',
       ''HasExistsScriptRule'', ''LsAllRule''] \<and>
   get_corrected_commands (registered_rules (libstdcxx_env [] (\<lambda>p. False)))
     (new_Command ''./run.sh'' ''bash: ./run.sh: Permission denied'') = Some [''sudo ./run.sh''] \<and>
   get_corrected_commands (RuleManager (libstdcxx_env [] (\<lambda>p. False)))
     (new_Command ''./run.sh'' ''bash: ./run.sh: Permission denied'') = Some [''chmod +x ./run.sh && ./run.sh'']"
proof (intro conjI)
  show "map_option (map get_name)
     (libstdcxx_sort rule_less (registered_rules (libstdcxx_env [] (\<lambda>p. False)))) =
     Some
      [''NpmWrongCommandRule'', ''MkdirPRule'', ''RmDirRule'', ''SlLsRule'',
       ''PythonCommandRule'', ''PythonExecuteRule'', ''JavaRule'', ''JavacRule'',
       ''GoRunRule'', ''CargoRule'', ''DockerNotCommandRule'', ''LsLahRule'',
       ''PipUnknownCommandRule'', ''GitCloneGitCloneRule'',
       ''WrongHyphenBeforeSubcommandRule'', ''MissingSpaceBeforeSubcommandRule'',
       ''RemoveShellPromptLiteralRule'', ''TouchRule'', ''UnsudoRule'', ''LnSOrderRule'',
       ''Cpp11Rule'', ''GitMainMasterRule'', ''DryRule'', ''FuzzyCommandRule'',
       ''GitPushRule'', ''NoCommandRule'', ''GitNotCommandRule'', ''CdMkdirRule'',
       ''CdParentRule'', ''CdCsRule'', ''CatDirRule'', ''ChmodXRule'',
       ''CpOmittingDirectoryRule'', ''SudoRule'', ''GitAddRule'', ''GitAddForceRule'',
       ''GitBranchDeleteRule'', ''GitCommitAddRule'', ''GitCommitAmendRule'',
       ''GitPullRule'', ''GitTwoDashesRule'', ''GrepRecursiveRule'',
       ''HasExistsScriptRule'', ''LsAllRule'']"
    by code_simp
  show "map get_name (RuleManager (libstdcxx_env [] (\<lambda>p. False))) =
      [''NpmWrongCommandRule'', ''MkdirPRule'', ''RmDirRule'', ''SlLsRule'',
       ''PythonCommandRule'', ''PythonExecuteRule'', ''JavaRule'', ''JavacRule'',
       ''GoRunRule'', ''CargoRule'', ''DockerNotCommandRule'', ''LsLahRule'',
       ''PipUnknownCommandRule'', ''GitCloneGitCloneRule'',
       ''WrongHyphenBeforeSubcommandRule'', ''MissingSpaceBeforeSubcommandRule'',
       ''RemoveShellPromptLiteralRule'', ''TouchRule'', ''UnsudoRule'', ''LnSOrderRule'',
       ''Cpp11Rule'', ''GitMainMasterRule'', ''DryRule'', ''FuzzyCommandRule'',
       ''GitPushRule'', ''NoCommandRule'', ''GitNotCommandRule'', ''CdMkdirRule'',
       ''CdParentRule'', ''CdCsRule'', ''CatDirRule'', ''ChmodXRule'',
       ''CpOmittingDirectoryRule'', ''SudoRule'', ''GitAddRule'', ''GitAddForceRule'',
       ''GitBranchDeleteRule'', ''GitCommitAddRule'', ''GitCommitAmendRule'',
       ''GitPullRule'', ''GitTwoDashesRule'', ''GrepRecursiveRule'',
       ''HasExistsScriptRule'', ''LsAllRule'']"
    by code_simp
  show "get_corrected_commands (registered_rules (libstdcxx_env [] (\<lambda>p. False)))
     (new_Command ''./run.sh'' ''bash: ./run.sh: Permission denied'') = Some [''sudo ./run.sh'']"
    by code_simp
  show "get_corrected_commands (RuleManager (libstdcxx_env [] (\<lambda>p. False)))
     (new_Command ''./run.sh'' ''bash: ./run.sh: Permission denied'') = Some [''chmod +x ./run.sh && ./run.sh'']"
    by code_simp
qed

lemma within_distance_eq:
  "within_distance e input k =
     map (\<lambda>c. \<lparr>command = c, distance = lev_rec input c (length input) (length c)\<rparr>)
       (filter (\<lambda>c. lev_rec input c (length input) (length c) \<le> k) (cached_commands e))"
  unfolding within_distance_def levenshtein_distance_lev_rec
  by (induction "cached_commands e" arbitrary: e) (simp_all add: List.map_filter_def)

lemma append_parts_concat:
  "append_parts fixed parts (Suc 0) = fixed @ concat (map (\<lambda>a. '' '' @ a) (tl parts))"
proof -
  have "foldl (\<lambda>acc p. acc @ '' '' @ p) acc ps = acc @ concat (map (\<lambda>a. '' '' @ a) ps)"
    for acc :: string and ps
    by (induction ps arbitrary: acc) simp_all
  then show ?thesis by (simp add: append_parts_def drop_Suc)
qed

text \<open>
  C5 (amended): on a system whose \<^verbatim>\<open>std::sort\<close> keeps its promise, for every matched
  Command \<open>FuzzyCommandRule_get_new_command\<close> returns between one and three candidates:
  the first three of the indexed names within edit distance 3 of the first token, as
  \<^verbatim>\<open>std::sort\<close> leaves them, which is a rearrangement in ascending order of distance (the
  order among names at the same distance is not determined); each candidate is the
  matched name followed by the original remaining tokens, each after a single space,
  unaltered.
\<close>

theorem FuzzyCommandRule_get_new_command_ranked:
  assumes ok: "std_sort_ok e" and m: "FuzzyCommandRule_match e cmd = Some True"
  shows "FuzzyCommandRule_get_new_command e cmd =
      Some (map (\<lambda>m. command m @ concat (map (\<lambda>a. '' '' @ a) (tl (script_parts cmd))))
             (take 3 (sort_matches e (within_distance e (hd (script_parts cmd)) 3)))) \<and>
    mset (sort_matches e (within_distance e (hd (script_parts cmd)) 3))
      = mset (within_distance e (hd (script_parts cmd)) 3) \<and>
    sorted (map distance (sort_matches e (within_distance e (hd (script_parts cmd)) 3))) \<and>
    (\<exists>n. FuzzyCommandRule_get_new_command e cmd = Some n \<and> 1 \<le> length n \<and> length n \<le> 3)"
proof -
  let ?t = "hd (script_parts cmd)"
  let ?w = "within_distance e ?t 3"
  from m have parts: "script_parts cmd \<noteq> []"
    and near: "\<exists>name \<in> set (cached_commands e). \<exists>d.
        levenshtein_distance ?t name = Some d \<and> d \<le> 2"
    unfolding FuzzyCommandRule_match_eq [OF ok] by simp_all
  have post: "std_sort_post compare_matches ?w (sort_matches e ?w)"
    using ok by (simp add: std_sort_ok_def)
  then have ms: "mset (sort_matches e ?w) = mset ?w"
    by (simp add: std_sort_post_def)
  have srt: "sorted (map distance (sort_matches e ?w))"
    using post by (simp add: std_sort_post_def compare_matches_fun sorted_map not_less)
  have res: "FuzzyCommandRule_get_new_command e cmd =
      Some (map (\<lambda>m. command m @ concat (map (\<lambda>a. '' '' @ a) (tl (script_parts cmd))))
             (take 3 (sort_matches e ?w)))"
    using parts
    by (simp add: FuzzyCommandRule_get_new_command_def vec_at_0 find_similar_commands_Some
        within_distance_eq append_parts_concat)
  from near obtain name where "name \<in> set (cached_commands e)"
    and "lev_rec ?t name (length ?t) (length name) \<le> 2"
    by (auto simp: levenshtein_distance_lev_rec)
  then have "name \<in> set (filter (\<lambda>c. lev_rec ?t c (length ?t) (length c) \<le> 3) (cached_commands e))"
    by simp
  then have "filter (\<lambda>c. lev_rec ?t c (length ?t) (length c) \<le> 3) (cached_commands e) \<noteq> []"
    using length_pos_if_in_set by fastforce
  then have "?w \<noteq> []"
    by (simp add: within_distance_eq)
  then have "sort_matches e ?w \<noteq> []"
    by (simp add: std_sort_ok_Nil_iff [OF ok])
  then have "1 \<le> length (take 3 (sort_matches e ?w))"
    by (cases "sort_matches e ?w") simp_all
  with res ms srt show ?thesis by simp
qed

lemma lev_light_index:
  "levenshtein_distance ''light'' ''lighter'' = Some 2"
  "levenshtein_distance ''light'' ''ls'' = Some 4"
  "levenshtein_distance ''light'' ''right'' = Some 1"
  "levenshtein_distance ''light'' ''night'' = Some 1"
  "levenshtein_distance ''light'' ''sight'' = Some 1"
  by code_simp+

theorem FuzzyCommandRule_get_new_command_ranked_witness:
  "FuzzyCommandRule_match (stable_env [''lighter'', ''ls'', ''right'', ''night'', ''sight''] (\<lambda>p. False))
     (new_Command ''light  -v up'' ''bash: light: command not found'') = Some True \<and>
   FuzzyCommandRule_get_new_command
     (stable_env [''lighter'', ''ls'', ''right'', ''night'', ''sight''] (\<lambda>p. False))
     (new_Command ''light  -v up'' ''bash: light: command not found'')
     = Some [''right -v up'', ''night -v up'', ''sight -v up'']"
proof -
  let ?e = "stable_env [''lighter'', ''ls'', ''right'', ''night'', ''sight''] (\<lambda>p. False)"
  let ?c = "new_Command ''light  -v up'' ''bash: light: command not found''"
  have m: "FuzzyCommandRule_match ?e ?c = Some True"
    by (simp add: lev_light_index FuzzyCommandRule_match_def find_similar_commands_def
        contains_def space_split_def vec_at_def stable_env_def)
  have w: "within_distance ?e ''light'' 3 =
      [\<lparr>command = ''lighter'', distance = 2\<rparr>, \<lparr>command = ''right'', distance = 1\<rparr>,
       \<lparr>command = ''night'', distance = 1\<rparr>, \<lparr>command = ''sight'', distance = 1\<rparr>]"
    by (simp add: within_distance_def lev_light_index List.map_filter_def stable_env_def)
  have p: "script_parts ?c = [''light'', ''-v'', ''up'']"
    by (simp add: space_split_def)
  have s: "sort_matches ?e = sort_key distance"
    by (simp add: stable_env_def)
  from FuzzyCommandRule_get_new_command_ranked [OF std_sort_ok_stable_env m]
  have "FuzzyCommandRule_get_new_command ?e ?c =
      Some (map (\<lambda>m. command m @ concat (map (\<lambda>a. '' '' @ a) (tl (script_parts ?c))))
             (take 3 (sort_matches ?e (within_distance ?e (hd (script_parts ?c)) 3))))"
    by (rule conjunct1)
  then have "FuzzyCommandRule_get_new_command ?e ?c
      = Some [''right -v up'', ''night -v up'', ''sight -v up'']"
    unfolding p list.sel w s by simp
  with m show ?thesis by (rule conjI)
qed

theorem get_corrected_commands_first_match_witness:
  "get_corrected_commands (RuleManager (stable_env [] (\<lambda>p. False)))
     (new_Command ''rm foo/''
        (''rm: cannot remove '' @ [CHR 0x27] @ ''foo/'' @ [CHR 0x27] @ '': Is a directory''))
     = Some [''rm -rf foo/''] \<and>
   map get_name (corrections_called (RuleManager (stable_env [] (\<lambda>p. False)))
     (new_Command ''rm foo/''
        (''rm: cannot remove '' @ [CHR 0x27] @ ''foo/'' @ [CHR 0x27] @ '': Is a directory'')))
     = [''RmDirRule''] \<and>
   get_corrected_commands (RuleManager (stable_env [] (\<lambda>p. False)))
     (new_Command ''frobnicate'' '''') = Some [] \<and>
   corrections_called (RuleManager (stable_env [] (\<lambda>p. False)))
     (new_Command ''frobnicate'' '''') = []"
proof -
  let ?e = "stable_env [] (\<lambda>p. False)"
  let ?c = "new_Command ''rm foo/''
        (''rm: cannot remove '' @ [CHR 0x27] @ ''foo/'' @ [CHR 0x27] @ '': Is a directory'')"
  let ?n = "new_Command ''frobnicate'' ''''"
  have f1: "List.find (\<lambda>r. match r ?c = Some True) (registered_rules ?e)
      = Some (RULE_CLASS ''RmDirRule'' RmDirRule_match RmDirRule_get_new_command)"
    unfolding registered_rules_def by (simp add: rule_eval_defs)
  have f0: "List.find (\<lambda>r. match r ?n = Some True) (registered_rules ?e) = None"
    unfolding registered_rules_def by (simp add: rule_eval_defs)
  show ?thesis
    using get_corrected_commands_first_match [OF registered_rules_total, of ?e "''rm foo/''"
        "''rm: cannot remove '' @ [CHR 0x27] @ ''foo/'' @ [CHR 0x27] @ '': Is a directory''"]
      get_corrected_commands_first_match [OF registered_rules_total, of ?e "''frobnicate''" "''''"]
    unfolding RuleManager_stable_env f1 f0
    by (simp add: RmDirRule_get_new_command_def substr_def)
qed

lemma no_upstream_output:
  "regex_search branch_regex ''fatal: The current branch dev has no upstream branch.'' = None"
  by (simp add: branch_regex_def)

lemma not_a_git_command_output:
  "regex_search did_you_mean
     (''git: '' @ [CHR 0x27] @ ''comit'' @ [CHR 0x27] @ '' is not a git command.'') = None"
  by (simp add: did_you_mean_def)

theorem regex_capture_fallback_witness:
  "GitPushRule_match
     (new_Command ''git push'' ''fatal: The current branch dev has no upstream branch.'')
     = Some True \<and>
   GitPushRule_get_new_command
     (new_Command ''git push'' ''fatal: The current branch dev has no upstream branch.'')
     = Some [''git push --set-upstream origin master''] \<and>
   GitNotCommandRule_match
     (new_Command ''git comit -m x''
        (''git: '' @ [CHR 0x27] @ ''comit'' @ [CHR 0x27] @ '' is not a git command.''))
     = Some True \<and>
   GitNotCommandRule_get_new_command
     (new_Command ''git comit -m x''
        (''git: '' @ [CHR 0x27] @ ''comit'' @ [CHR 0x27] @ '' is not a git command.''))
     = Some [''git comit -m x'']"
  using regex_capture_fallback [of "new_Command ''git push''
        ''fatal: The current branch dev has no upstream branch.''"]
    regex_capture_fallback [of "new_Command ''git comit -m x''
        (''git: '' @ [CHR 0x27] @ ''comit'' @ [CHR 0x27] @ '' is not a git command.'')"]
    no_upstream_output not_a_git_command_output
  by (simp add: GitPushRule_match_def GitNotCommandRule_match_def contains_def starts_with_def)

lemma GitPushRule_capture_example:
  "GitPushRule_get_new_command
     (new_Command ''git push''
        (''fatal: The current branch fix-1 has no upstream branch.'' @ [CHR 0x0A] @
         ''To push the current branch and set the remote as upstream, use'' @ [CHR 0x0A, CHR 0x0A] @
         ''    git push --set-upstream origin fix-1'' @ [CHR 0x0A]))
     = Some [''git push --set-upstream origin fix-1'']"
  by (simp add: GitPushRule_get_new_command_def branch_regex_def is_branch_char_def)

lemma GitNotCommandRule_capture_example:
  "GitNotCommandRule_get_new_command
     (new_Command ''git comit -m x''
        (''git: '' @ [CHR 0x27] @ ''comit'' @ [CHR 0x27] @ '' is not a git command.'' @ [CHR 0x0A, CHR 0x0A] @
         ''The most similar command is'' @ [CHR 0x0A, CHR 0x09] @ ''commit'' @ [CHR 0x0A]))
     = Some [''git commit -m x'']"
  by (simp add: GitNotCommandRule_get_new_command_def did_you_mean_def is_lower_char_def
      isspace_def space_split_def append_parts_def)

text \<open>
  What SudoRule does: it matches exactly when the lower-cased output contains
  \<^verbatim>\<open>permission denied\<close> or the output contains \<^verbatim>\<open>unless you are root\<close>, and its one
  candidate is \<^verbatim>\<open>sudo\<close>, a space, and the original script.
\<close>

theorem SudoRule_behaviour:
  "SudoRule_match cmd =
     Some (contains (to_lower (output cmd)) ''permission denied'' \<or>
           contains (output cmd) ''unless you are root'') \<and>
   SudoRule_get_new_command cmd = Some [''sudo '' @ script cmd]"
  by (simp add: SudoRule_match_eq SudoRule_get_new_command_def)

theorem SudoRule_behaviour_witness:
  "SudoRule_match
     (new_Command ''apt install jq'' ''E: Could not open lock file (13: Permission denied)'')
     = Some True \<and>
   SudoRule_get_new_command
     (new_Command ''apt install jq'' ''E: Could not open lock file (13: Permission denied)'')
     = Some [''sudo apt install jq'']"
  using SudoRule_behaviour
    [of "new_Command ''apt install jq'' ''E: Could not open lock file (13: Permission denied)''"]
  by (simp add: contains_def to_lower_def tolower_def)

text \<open>
  With a stable sort the registry is in registration order.
\<close>

theorem stable_sort_keeps_registration_order:
  "map get_name (RuleManager (stable_env cmds fe)) =
     [''SudoRule'', ''FuzzyCommandRule'', ''GitPushRule'', ''NoCommandRule'',
      ''GitNotCommandRule'', ''CdMkdirRule'', ''CdParentRule'', ''CdCsRule'', ''CatDirRule'',
      ''ChmodXRule'', ''CpOmittingDirectoryRule'', ''DryRule'', ''GitAddRule'',
      ''GitAddForceRule'', ''GitBranchDeleteRule'', ''GitCommitAddRule'', ''GitCommitAmendRule'',
      ''GitPullRule'', ''GitTwoDashesRule'', ''GrepRecursiveRule'', ''HasExistsScriptRule'',
      ''LsAllRule'', ''LsLahRule'', ''MkdirPRule'', ''RmDirRule'', ''SlLsRule'',
      ''PythonCommandRule'', ''PythonExecuteRule'', ''JavaRule'', ''JavacRule'', ''GoRunRule'',
      ''CargoRule'', ''DockerNotCommandRule'', ''NpmWrongCommandRule'', ''PipUnknownCommandRule'',
      ''GitCloneGitCloneRule'', ''WrongHyphenBeforeSubcommandRule'',
      ''MissingSpaceBeforeSubcommandRule'', ''RemoveShellPromptLiteralRule'', ''TouchRule'',
      ''UnsudoRule'', ''LnSOrderRule'', ''Cpp11Rule'', ''GitMainMasterRule'']"
  unfolding RuleManager_stable_env by (simp add: registered_rules_def)

end
